theory Spec2Isabelle
  imports Main
begin

section \<open>Data model\<close>

text \<open>
  The header \<^verbatim>\<open>osfs.h\<close> is not available, so the three compile-time constants the code
  uses are parameters of every function that needs them: \<^verbatim>\<open>BLOCK_SIZE\<close>,
  \<^verbatim>\<open>MAX_FILENAME_LEN\<close> and \<^verbatim>\<open>sizeof(struct osfs_dir_entry)\<close>.
\<close>

record osfs_params =
  BLOCK_SIZE :: nat
  MAX_FILENAME_LEN :: nat
  DIRENT_SIZE :: nat

text \<open>The negative return codes of the C functions, as values.\<close>

datatype errno = ENOSPC | EFAULT | EIO | EINVAL | ENAMETOOLONG | ENOMEM

text \<open>
  \<^verbatim>\<open>struct osfs_extent\<close>: a run of \<open>ext_block_count\<close> blocks from \<open>start_block\<close>
  (the C field is \<^verbatim>\<open>block_count\<close>; renamed because the superblock has a field of
  the same name). A slot with \<open>ext_block_count = 0\<close> is unused.
\<close>

record osfs_extent =
  start_block :: nat
  ext_block_count :: nat

text \<open>
  \<^verbatim>\<open>struct osfs_inode\<close>, restricted to the fields the allocation, directory and file
  code reads or writes (owner and timestamps are left out). \<open>extents\<close> is the array
  \<^verbatim>\<open>extents[4]\<close>: only indices 0..3 are slots.
\<close>

record osfs_inode =
  i_ino :: nat
  i_mode :: nat
  i_size :: nat
  i_blocks :: nat
  extents :: "nat \<Rightarrow> osfs_extent"
  extent_count :: nat

text \<open>\<^verbatim>\<open>struct osfs_dir_entry\<close>: the name up to its terminating NUL, and the inode number.\<close>

record osfs_dir_entry =
  filename :: string
  inode_no :: nat

text \<open>
  \<^verbatim>\<open>struct osfs_sb_info\<close>. A bitmap is the set of the indices of its set bits
  (\<^verbatim>\<open>test_bit\<close> is membership, \<^verbatim>\<open>set_bit\<close> is \<open>insert\<close>, \<^verbatim>\<open>clear_bit\<close> removes).
  \<open>inode_table\<close> is the array behind the pointer of that name, indexed by inode number.
  The data region behind \<^verbatim>\<open>data_blocks\<close> is kept as two stores addressed by byte offset
  from its base: \<open>data_blocks\<close> holds the bytes that file I/O copies, and \<open>dir_blocks\<close>
  holds what a read through a \<^verbatim>\<open>struct osfs_dir_entry *\<close> at that offset yields.
  The two stores are independent: a file write into a block that holds directory
  entries does not show in \<open>dir_blocks\<close>.
\<close>

record osfs_sb_info =
  inode_count :: nat
  block_count :: nat
  nr_free_inodes :: nat
  nr_free_blocks :: nat
  inode_bitmap :: "nat set"
  block_bitmap :: "nat set"
  inode_table :: "nat \<Rightarrow> osfs_inode"
  data_blocks :: "nat \<Rightarrow> char"
  dir_blocks :: "nat \<Rightarrow> osfs_dir_entry"

text \<open>Arithmetic on \<^verbatim>\<open>uint32_t\<close>: truncation and wrapping subtraction.\<close>

definition u32 :: "nat \<Rightarrow> nat" where
  "u32 n = n mod 2 ^ 32"

definition u32_sub :: "nat \<Rightarrow> nat \<Rightarrow> nat" where
  "u32_sub a b = (a + 2 ^ 32 - b mod 2 ^ 32) mod 2 ^ 32"

section \<open>inode.c\<close>

definition osfs_get_osfs_inode :: "osfs_sb_info \<Rightarrow> nat \<Rightarrow> osfs_inode option" where
  "osfs_get_osfs_inode sb ino =
     (if ino = 0 \<or> ino \<ge> inode_count sb then None else Some (inode_table sb ino))"

text \<open>The loop of \<^verbatim>\<open>osfs_get_free_inode\<close>, from the index \<open>ino\<close> on.\<close>

function get_free_inode_from :: "osfs_sb_info \<Rightarrow> nat \<Rightarrow> (errno + nat) \<times> osfs_sb_info" where
  "get_free_inode_from sb ino =
     (if ino < inode_count sb then
        (if ino \<notin> inode_bitmap sb then
           (Inr ino, sb\<lparr>inode_bitmap := insert ino (inode_bitmap sb),
                        nr_free_inodes := u32_sub (nr_free_inodes sb) 1\<rparr>)
         else get_free_inode_from sb (ino + 1))
      else (Inl ENOSPC, sb))"
  by pat_completeness auto
termination
  by (relation "measure (\<lambda>(sb, ino). inode_count sb - ino)") auto

declare get_free_inode_from.simps [simp del]

definition osfs_get_free_inode :: "osfs_sb_info \<Rightarrow> (errno + nat) \<times> osfs_sb_info" where
  "osfs_get_free_inode sb = get_free_inode_from sb 1"

function alloc_data_block_from :: "osfs_sb_info \<Rightarrow> nat \<Rightarrow> (errno + nat) \<times> osfs_sb_info" where
  "alloc_data_block_from sb i =
     (if i < block_count sb then
        (if i \<notin> block_bitmap sb then
           (Inr i, sb\<lparr>block_bitmap := insert i (block_bitmap sb),
                      nr_free_blocks := u32_sub (nr_free_blocks sb) 1\<rparr>)
         else alloc_data_block_from sb (i + 1))
      else (Inl ENOSPC, sb))"
  by pat_completeness auto
termination
  by (relation "measure (\<lambda>(sb, i). block_count sb - i)") auto

declare alloc_data_block_from.simps [simp del]

definition osfs_alloc_data_block :: "osfs_sb_info \<Rightarrow> (errno + nat) \<times> osfs_sb_info" where
  "osfs_alloc_data_block sb = alloc_data_block_from sb 0"

definition osfs_free_data_block :: "osfs_sb_info \<Rightarrow> nat \<Rightarrow> osfs_sb_info" where
  "osfs_free_data_block sb block_no =
     sb\<lparr>block_bitmap := block_bitmap sb - {block_no},
        nr_free_blocks := u32 (nr_free_blocks sb + 1)\<rparr>"

text \<open>
  The search of \<^verbatim>\<open>osfs_alloc_extent\<close> for an unused slot: the first index from
  \<open>extent_index\<close> on whose slot has block count 0, or 4 when the loop runs out.
\<close>

function find_free_extent :: "osfs_inode \<Rightarrow> nat \<Rightarrow> nat" where
  "find_free_extent inode extent_index =
     (if extent_index < 4 then
        (if ext_block_count (extents inode extent_index) = 0 then extent_index
         else find_free_extent inode (extent_index + 1))
      else 4)"
  by pat_completeness auto
termination
  by (relation "measure (\<lambda>(inode, extent_index). 4 - extent_index)") auto

declare find_free_extent.simps [simp del]

text \<open>The loop that sets the bits \<open>j, ..., hi - 1\<close> of the block bitmap.\<close>

function set_bits :: "nat set \<Rightarrow> nat \<Rightarrow> nat \<Rightarrow> nat set" where
  "set_bits bm j hi = (if j < hi then set_bits (insert j bm) (j + 1) hi else bm)"
  by pat_completeness auto
termination
  by (relation "measure (\<lambda>(bm, j, hi). hi - j)") auto

declare set_bits.simps [simp del]

text \<open>
  The scan of \<^verbatim>\<open>osfs_alloc_extent\<close> from block \<open>i\<close> on, with the loop's two variables.
  The result is the return code, the superblock and the inode as the call leaves them.
  The counters of the loop are \<^verbatim>\<open>uint32_t\<close> and stay at most \<open>i + 1\<close>, which is at
  most the block count, so none of them wraps.
\<close>

function alloc_scan ::
  "osfs_sb_info \<Rightarrow> nat \<Rightarrow> osfs_inode \<Rightarrow> nat \<Rightarrow> nat \<Rightarrow> nat \<Rightarrow> (errno + unit) \<times> osfs_sb_info \<times> osfs_inode"
where
  "alloc_scan sb required_blocks inode i start_block0 consecutive_free_blocks =
     (if i < block_count sb then
        (if i \<notin> block_bitmap sb then
           (if consecutive_free_blocks + 1 = required_blocks then
              (if find_free_extent inode 0 = 4 then (Inl ENOSPC, sb, inode)
               else
                 (Inr (),
                  sb\<lparr>block_bitmap :=
                       set_bits (block_bitmap sb)
                         (if consecutive_free_blocks = 0 then i else start_block0)
                         ((if consecutive_free_blocks = 0 then i else start_block0) + required_blocks),
                     nr_free_blocks := u32_sub (nr_free_blocks sb) required_blocks\<rparr>,
                  inode\<lparr>extents := (extents inode)
                          (find_free_extent inode 0 :=
                             \<lparr>start_block = (if consecutive_free_blocks = 0 then i else start_block0),
                              ext_block_count = required_blocks\<rparr>),
                        extent_count := extent_count inode + 1\<rparr>))
            else alloc_scan sb required_blocks inode (i + 1)
                   (if consecutive_free_blocks = 0 then i else start_block0)
                   (consecutive_free_blocks + 1))
         else alloc_scan sb required_blocks inode (i + 1) start_block0 0)
      else (Inl ENOSPC, sb, inode))"
  by pat_completeness auto
termination
  by (relation "measure (\<lambda>(sb, rb, inode, i, s, c). block_count sb - i)") auto

declare alloc_scan.simps [simp del]

definition osfs_alloc_extent ::
  "osfs_sb_info \<Rightarrow> nat \<Rightarrow> osfs_inode \<Rightarrow> (errno + unit) \<times> osfs_sb_info \<times> osfs_inode"
where
  "osfs_alloc_extent sb required_blocks inode = alloc_scan sb required_blocks inode 0 0 0"

text \<open>
  \<^verbatim>\<open>osfs_alloc_extent\<close> is always called with a pointer into the inode table; this is
  the call on the record of inode \<open>ino\<close>, with the record written back.
\<close>

definition alloc_extent_at :: "osfs_sb_info \<Rightarrow> nat \<Rightarrow> nat \<Rightarrow> (errno + unit) \<times> osfs_sb_info" where
  "alloc_extent_at sb required_blocks ino =
     (case osfs_alloc_extent sb required_blocks (inode_table sb ino) of
        (r, sb', inode') \<Rightarrow> (r, sb'\<lparr>inode_table := (inode_table sb')(ino := inode')\<rparr>))"

section \<open>dir.c\<close>

text \<open>The kernel's file type tests on a mode: the type is bits 12 to 15.\<close>

definition S_ISDIR :: "nat \<Rightarrow> bool" where
  "S_ISDIR m = ((m div 4096) mod 16 = 4)"

definition S_ISREG :: "nat \<Rightarrow> bool" where
  "S_ISREG m = ((m div 4096) mod 16 = 8)"

definition S_ISLNK :: "nat \<Rightarrow> bool" where
  "S_ISLNK m = ((m div 4096) mod 16 = 10)"

text \<open>The record that \<^verbatim>\<open>memset(osfs_inode, 0, sizeof(*osfs_inode))\<close> leaves.\<close>

definition zero_inode :: osfs_inode where
  "zero_inode =
     \<lparr>i_ino = 0, i_mode = 0, i_size = 0, i_blocks = 0,
      extents = (\<lambda>_. \<lparr>start_block = 0, ext_block_count = 0\<rparr>), extent_count = 0\<rparr>"

text \<open>
  \<^verbatim>\<open>osfs_new_inode\<close>. The VFS inode it returns is identified with its inode number
  (\<^verbatim>\<open>i_private\<close> is the record of that number in the inode table). \<open>vfs_ok\<close> says
  whether the kernel's \<^verbatim>\<open>new_inode(sb)\<close> returns an inode. The mode stored is the one
  passed in (\<^verbatim>\<open>inode_init_owner\<close> can add the set-group-id bit to it). On its failure
  paths the code calls \<^verbatim>\<open>iput\<close> on the VFS inode, which has a link count of 1 or 2:
  that releases the in-memory inode only, and none of \<^verbatim>\<open>inode.c\<close>, \<^verbatim>\<open>dir.c\<close> and
  \<^verbatim>\<open>file.c\<close> has an operation that clears a bit of the inode bitmap, so these paths
  return the superblock as it is at that point.
\<close>

definition osfs_new_inode :: "osfs_sb_info \<Rightarrow> bool \<Rightarrow> nat \<Rightarrow> (errno + nat) \<times> osfs_sb_info" where
  "osfs_new_inode sb vfs_ok mode =
     (if \<not> S_ISDIR mode \<and> \<not> S_ISREG mode \<and> \<not> S_ISLNK mode then (Inl EINVAL, sb)
      else if nr_free_inodes sb = 0 \<or> nr_free_blocks sb = 0 then (Inl ENOSPC, sb)
      else
        (case osfs_get_free_inode sb of
           (Inl e, sb1) \<Rightarrow> (Inl ENOSPC, sb1)
         | (Inr ino, sb1) \<Rightarrow>
             if ino \<ge> inode_count sb1 then (Inl ENOSPC, sb1)
             else if \<not> vfs_ok then (Inl ENOMEM, sb1)
             else
               (case osfs_get_osfs_inode sb1 ino of
                  None \<Rightarrow> (Inl EIO, sb1)
                | Some _ \<Rightarrow>
                    (case alloc_extent_at
                            (sb1\<lparr>inode_table := (inode_table sb1)
                                  (ino := zero_inode\<lparr>i_ino := ino, i_mode := mode,
                                                     i_size := 0, i_blocks := 0\<rparr>)\<rparr>)
                            1 ino of
                       (Inl e, sb2) \<Rightarrow> (Inl e, sb2)
                     | (Inr _, sb2) \<Rightarrow>
                         (Inr ino, sb2\<lparr>nr_free_inodes := u32_sub (nr_free_inodes sb2) 1\<rparr>)))))"

text \<open>
  Directory entry \<open>j\<close> of an extent is read through a pointer to the extent's first
  byte, \<^verbatim>\<open>data_blocks + start_block * BLOCK_SIZE\<close> (a 32-bit product).
\<close>

definition dirent_addr :: "osfs_params \<Rightarrow> osfs_extent \<Rightarrow> nat \<Rightarrow> nat" where
  "dirent_addr cfg e j = u32 (start_block e * BLOCK_SIZE cfg) + j * DIRENT_SIZE cfg"

text \<open>The inner loop of \<^verbatim>\<open>osfs_add_dir_entry\<close>: the first free entry of an extent from \<open>j\<close> on.\<close>

function find_free_dirent ::
  "osfs_params \<Rightarrow> osfs_sb_info \<Rightarrow> osfs_extent \<Rightarrow> nat \<Rightarrow> nat \<Rightarrow> nat option"
where
  "find_free_dirent cfg sb e j dir_entry_count =
     (if j < dir_entry_count then
        (if inode_no (dir_blocks sb (dirent_addr cfg e j)) = 0 then Some (dirent_addr cfg e j)
         else find_free_dirent cfg sb e (j + 1) dir_entry_count)
      else None)"
  by pat_completeness auto
termination
  by (relation "measure (\<lambda>(cfg, sb, e, j, n). n - j)") auto

declare find_free_dirent.simps [simp del]

text \<open>
  The outer loop: the address of the first free entry of the extents \<open>i, i + 1, ...\<close>.
  The entry count of an extent is taken to fit the \<^verbatim>\<open>int\<close> that holds it.
\<close>

function add_dir_scan :: "osfs_params \<Rightarrow> osfs_sb_info \<Rightarrow> osfs_inode \<Rightarrow> nat \<Rightarrow> nat option" where
  "add_dir_scan cfg sb parent_inode i =
     (if i < extent_count parent_inode then
        (case find_free_dirent cfg sb (extents parent_inode i) 0
                (ext_block_count (extents parent_inode i) * (BLOCK_SIZE cfg div DIRENT_SIZE cfg)) of
           Some a \<Rightarrow> Some a
         | None \<Rightarrow> add_dir_scan cfg sb parent_inode (i + 1))
      else None)"
  by pat_completeness auto
termination
  by (relation "measure (\<lambda>(cfg, sb, parent_inode, i). extent_count parent_inode - i)") auto

declare add_dir_scan.simps [simp del]

text \<open>The number of unused slots of an inode's extent array.\<close>

definition free_slots :: "osfs_inode \<Rightarrow> nat" where
  "free_slots inode = length (filter (\<lambda>k. ext_block_count (extents inode k) = 0) [0, 1, 2, 3])"

text \<open>
  \<^verbatim>\<open>osfs_add_dir_entry\<close> on the directory with inode number \<open>dir\<close>. The stored name
  is what \<^verbatim>\<open>strncpy\<close> and the terminating NUL leave as a C string; the entry is taken
  to have room for the NUL at index \<open>name_len\<close>, also when \<open>name_len\<close> is
  \<^verbatim>\<open>MAX_FILENAME_LEN\<close>. The function calls itself after a successful extent allocation.
\<close>

function osfs_add_dir_entry ::
  "osfs_params \<Rightarrow> osfs_sb_info \<Rightarrow> nat \<Rightarrow> nat \<Rightarrow> string \<Rightarrow> nat \<Rightarrow> (errno + unit) \<times> osfs_sb_info"
where
  "osfs_add_dir_entry cfg sb dir ino name name_len =
     (if name_len > MAX_FILENAME_LEN cfg then (Inl ENAMETOOLONG, sb)
      else
        (case add_dir_scan cfg sb (inode_table sb dir) 0 of
           Some a \<Rightarrow>
             (Inr (),
              sb\<lparr>dir_blocks := (dir_blocks sb)
                   (a := \<lparr>filename = takeWhile (\<lambda>c. c \<noteq> CHR 0x00) (take name_len name),
                          inode_no = ino\<rparr>)\<rparr>)
         | None \<Rightarrow>
             (case alloc_extent_at sb 1 dir of
                (Inl e, sb') \<Rightarrow> (Inl e, sb')
              | (Inr _, sb') \<Rightarrow> osfs_add_dir_entry cfg sb' dir ino name name_len)))"
  by pat_completeness auto

text \<open>
  \<^verbatim>\<open>osfs_create\<close> in the directory \<open>dir\<close>. The test of \<^verbatim>\<open>inode->i_private\<close> for NULL
  has no branch here: \<^verbatim>\<open>osfs_new_inode\<close> sets the pointer whenever it succeeds.
\<close>

definition osfs_create ::
  "osfs_params \<Rightarrow> osfs_sb_info \<Rightarrow> bool \<Rightarrow> nat \<Rightarrow> string \<Rightarrow> nat \<Rightarrow> nat \<Rightarrow> (errno + unit) \<times> osfs_sb_info"
where
  "osfs_create cfg sb vfs_ok dir name name_len mode =
     (if name_len > MAX_FILENAME_LEN cfg then (Inl ENAMETOOLONG, sb)
      else
        (case osfs_new_inode sb vfs_ok mode of
           (Inl e, sb1) \<Rightarrow> (Inl e, sb1)
         | (Inr ino, sb1) \<Rightarrow>
             (case alloc_extent_at
                     (sb1\<lparr>inode_table := (inode_table sb1)
                           (ino := (inode_table sb1 ino)\<lparr>i_size := 0, i_blocks := 0\<rparr>)\<rparr>)
                     1 ino of
                (Inl e, sb2) \<Rightarrow> (Inl e, sb2)
              | (Inr _, sb2) \<Rightarrow>
                  (case osfs_add_dir_entry cfg
                          (sb2\<lparr>inode_table := (inode_table sb2)
                                (ino := (inode_table sb2 ino)\<lparr>extent_count := 1\<rparr>)\<rparr>)
                          dir ino name name_len of
                     (Inl e, sb3) \<Rightarrow> (Inl e, sb3)
                   | (Inr _, sb3) \<Rightarrow>
                       (Inr (),
                        sb3\<lparr>inode_table := (inode_table sb3)
                              (dir := (inode_table sb3 dir)
                                 \<lparr>i_size := i_size (inode_table sb3 dir) + DIRENT_SIZE cfg\<rparr>)\<rparr>)))))"

text \<open>
  The kernel's \<^verbatim>\<open>struct dir_context\<close>: the position and the receiving buffer, which
  holds the entries emitted so far and has room for \<open>room\<close> more. \<^verbatim>\<open>dir_emit\<close> fails
  when the buffer is full; \<^verbatim>\<open>dir_emit_dots\<close> emits the two dot entries at the
  positions 0 and 1.
\<close>

record dir_context =
  ctx_pos :: nat
  emitted :: "(string \<times> nat) list"
  room :: nat

definition dir_emit :: "dir_context \<Rightarrow> string \<Rightarrow> nat \<Rightarrow> bool \<times> dir_context" where
  "dir_emit ctx name ino =
     (if room ctx = 0 then (False, ctx)
      else (True, ctx\<lparr>emitted := emitted ctx @ [(name, ino)], room := room ctx - 1\<rparr>))"

definition dir_emit_dots :: "nat \<Rightarrow> nat \<Rightarrow> dir_context \<Rightarrow> bool \<times> dir_context" where
  "dir_emit_dots dir parent ctx =
     (case (if ctx_pos ctx = 0 then
              (case dir_emit ctx ''.'' dir of
                 (False, c) \<Rightarrow> (False, c)
               | (True, c) \<Rightarrow> (True, c\<lparr>ctx_pos := 1\<rparr>))
            else (True, ctx)) of
        (False, c) \<Rightarrow> (False, c)
      | (True, c) \<Rightarrow>
          if ctx_pos c = 1 then
            (case dir_emit c ''..'' parent of
               (False, c') \<Rightarrow> (False, c')
             | (True, c') \<Rightarrow> (True, c'\<lparr>ctx_pos := 2\<rparr>))
          else (True, c))"

text \<open>
  The inner loop of \<^verbatim>\<open>osfs_iterate\<close> over the entries \<open>j, j + 1, ...\<close> of one extent;
  the position advances only when an entry is emitted.
\<close>

function iterate_entries ::
  "osfs_params \<Rightarrow> osfs_sb_info \<Rightarrow> osfs_extent \<Rightarrow> nat \<Rightarrow> dir_context \<Rightarrow> nat \<Rightarrow> (errno + unit) \<times> dir_context"
where
  "iterate_entries cfg sb e extent_entry_count ctx j =
     (if j < extent_entry_count then
        (if inode_no (dir_blocks sb (dirent_addr cfg e j)) = 0 then
           iterate_entries cfg sb e extent_entry_count ctx (j + 1)
         else
           (case dir_emit ctx (filename (dir_blocks sb (dirent_addr cfg e j)))
                   (inode_no (dir_blocks sb (dirent_addr cfg e j))) of
              (False, ctx') \<Rightarrow> (Inl EINVAL, ctx')
            | (True, ctx') \<Rightarrow>
                iterate_entries cfg sb e extent_entry_count (ctx'\<lparr>ctx_pos := ctx_pos ctx' + 1\<rparr>) (j + 1)))
      else (Inr (), ctx))"
  by pat_completeness auto
termination
  by (relation "measure (\<lambda>(cfg, sb, e, n, ctx, j). n - j)") auto

declare iterate_entries.simps [simp del]

text \<open>
  The outer loop over the extents. In each extent \<open>j\<close> starts at \<^verbatim>\<open>ctx->pos - 2\<close>, an
  \<^verbatim>\<open>int\<close> compared with a \<^verbatim>\<open>size_t\<close>: at position 1 it is \<open>-1\<close>, which is larger
  than every entry count, so the extent is skipped. Positions are taken to be small
  enough for \<^verbatim>\<open>ctx->pos - 2\<close> to fit the \<^verbatim>\<open>int\<close> (below \<open>2^31 + 2\<close>).
\<close>

function iterate_extents ::
  "osfs_params \<Rightarrow> osfs_sb_info \<Rightarrow> osfs_inode \<Rightarrow> dir_context \<Rightarrow> nat \<Rightarrow> (errno + unit) \<times> dir_context"
where
  "iterate_extents cfg sb inode ctx i =
     (if i < extent_count inode then
        (if ctx_pos ctx < 2 then iterate_extents cfg sb inode ctx (i + 1)
         else
           (case iterate_entries cfg sb (extents inode i)
                   (u32 (ext_block_count (extents inode i) * BLOCK_SIZE cfg) div DIRENT_SIZE cfg)
                   ctx (ctx_pos ctx - 2) of
              (Inl e, ctx') \<Rightarrow> (Inl e, ctx')
            | (Inr _, ctx') \<Rightarrow> iterate_extents cfg sb inode ctx' (i + 1)))
      else (Inr (), ctx))"
  by pat_completeness auto
termination
  by (relation "measure (\<lambda>(cfg, sb, inode, ctx, i). extent_count inode - i)") auto

declare iterate_extents.simps [simp del]

definition osfs_iterate ::
  "osfs_params \<Rightarrow> osfs_sb_info \<Rightarrow> nat \<Rightarrow> nat \<Rightarrow> dir_context \<Rightarrow> (errno + unit) \<times> dir_context"
where
  "osfs_iterate cfg sb dir parent ctx =
     (case (if ctx_pos ctx = 0 then dir_emit_dots dir parent ctx else (True, ctx)) of
        (False, ctx') \<Rightarrow> (Inr (), ctx')
      | (True, ctx') \<Rightarrow> iterate_extents cfg sb (inode_table sb dir) ctx' 0)"

section \<open>file.c\<close>

text \<open>
  The byte range of an extent as \<^verbatim>\<open>osfs_read\<close> and \<^verbatim>\<open>osfs_write\<close> compute it, in
  \<^verbatim>\<open>uint32_t\<close>: \<^verbatim>\<open>start_block * BLOCK_SIZE\<close> and that plus \<^verbatim>\<open>block_count * BLOCK_SIZE\<close>.
\<close>

definition extent_start :: "osfs_params \<Rightarrow> osfs_extent \<Rightarrow> nat" where
  "extent_start cfg e = u32 (start_block e * BLOCK_SIZE cfg)"

definition extent_end :: "osfs_params \<Rightarrow> osfs_extent \<Rightarrow> nat" where
  "extent_end cfg e = u32 (extent_start cfg e + u32 (ext_block_count e * BLOCK_SIZE cfg))"

text \<open>
  \<^verbatim>\<open>copy_from_user(dst, buf + off, n)\<close> into the data region, where \<open>buf\<close> is the bytes
  readable at the user's pointer: the region after a copy that succeeds.
\<close>

definition copy_in :: "(nat \<Rightarrow> char) \<Rightarrow> nat \<Rightarrow> string \<Rightarrow> nat \<Rightarrow> nat \<Rightarrow> (nat \<Rightarrow> char)" where
  "copy_in mem dst buf off n = (\<lambda>a. if dst \<le> a \<and> a < dst + n then buf ! (off + (a - dst)) else mem a)"

text \<open>
  The \<^verbatim>\<open>for\<close> loop of \<^verbatim>\<open>osfs_read\<close> from extent \<open>i\<close> on. \<open>out\<close> is what has been
  copied to the user's buffer so far (its length is \<^verbatim>\<open>bytes_read\<close>) and \<open>cap\<close> the
  number of bytes writable there: a copy beyond it is the failure of \<^verbatim>\<open>copy_to_user\<close>.
  The source address of a copy is \<^verbatim>\<open>data_blocks + *ppos\<close>.
\<close>

function read_extents ::
  "osfs_params \<Rightarrow> osfs_sb_info \<Rightarrow> osfs_inode \<Rightarrow> nat \<Rightarrow> nat \<Rightarrow> nat \<Rightarrow> string \<Rightarrow> nat \<Rightarrow>
   (errno + unit) \<times> string \<times> nat"
where
  "read_extents cfg sb inode cap i ppos out len =
     (if i < extent_count inode \<and> len > 0 then
        (if ppos \<ge> extent_start cfg (extents inode i) \<and> ppos < extent_end cfg (extents inode i) then
           (if length out + min len (extent_end cfg (extents inode i) - ppos) > cap then
              (Inl EFAULT, out, ppos)
            else
              read_extents cfg sb inode cap (i + 1)
                (ppos + min len (extent_end cfg (extents inode i) - ppos))
                (out @ map (data_blocks sb)
                         [ppos..<ppos + min len (extent_end cfg (extents inode i) - ppos)])
                (len - min len (extent_end cfg (extents inode i) - ppos)))
         else read_extents cfg sb inode cap (i + 1) ppos out len)
      else (Inr (), out, ppos))"
  by pat_completeness auto
termination
  by (relation "measure (\<lambda>(cfg, sb, inode, cap, i, ppos, out, len). extent_count inode - i)") auto

declare read_extents.simps [simp del]

text \<open>
  \<^verbatim>\<open>osfs_read\<close> on the file with inode number \<open>ino\<close>: the return value, the bytes
  delivered and the new file position. The sum \<^verbatim>\<open>*ppos + len\<close> is taken not to
  overflow its 64 bits.
\<close>

definition osfs_read ::
  "osfs_params \<Rightarrow> osfs_sb_info \<Rightarrow> nat \<Rightarrow> nat \<Rightarrow> nat \<Rightarrow> nat \<Rightarrow> (errno + nat) \<times> string \<times> nat"
where
  "osfs_read cfg sb ino cap len ppos =
     (if extent_count (inode_table sb ino) = 0 \<or> ppos \<ge> i_size (inode_table sb ino) then
        (Inr 0, [], ppos)
      else
        (case read_extents cfg sb (inode_table sb ino) cap 0 ppos []
                (if ppos + len > i_size (inode_table sb ino)
                 then i_size (inode_table sb ino) - ppos else len) of
           (Inl e, out, ppos') \<Rightarrow> (Inl e, out, ppos')
         | (Inr _, out, ppos') \<Rightarrow> (Inr (length out), out, ppos')))"

text \<open>
  The \<^verbatim>\<open>for\<close> loop of \<^verbatim>\<open>osfs_write\<close> from extent \<open>i\<close> on; the result carries the
  loop's variables \<^verbatim>\<open>*ppos\<close>, \<^verbatim>\<open>bytes_written\<close> and \<^verbatim>\<open>len\<close>. The destination of a
  copy is \<^verbatim>\<open>data_blocks + (*ppos - start_block)\<close>. A copy that would read past the
  end of \<open>buf\<close> is the failure of \<^verbatim>\<open>copy_from_user\<close>.
\<close>

function write_extents ::
  "osfs_params \<Rightarrow> osfs_sb_info \<Rightarrow> nat \<Rightarrow> string \<Rightarrow> nat \<Rightarrow> nat \<Rightarrow> nat \<Rightarrow> nat \<Rightarrow>
   (errno + unit) \<times> osfs_sb_info \<times> nat \<times> nat \<times> nat"
where
  "write_extents cfg sb ino buf i ppos bytes_written len =
     (if i < extent_count (inode_table sb ino) \<and> len > 0 then
        (if ppos \<ge> extent_start cfg (extents (inode_table sb ino) i) \<and>
            ppos < extent_end cfg (extents (inode_table sb ino) i) then
           (if bytes_written + min len (extent_end cfg (extents (inode_table sb ino) i) - ppos)
                 > length buf then
              (Inl EFAULT, sb, ppos, bytes_written, len)
            else
              write_extents cfg
                (sb\<lparr>data_blocks :=
                      copy_in (data_blocks sb)
                        (ppos - extent_start cfg (extents (inode_table sb ino) i)) buf bytes_written
                        (min len (extent_end cfg (extents (inode_table sb ino) i) - ppos)),
                    inode_table := (inode_table sb)
                      (ino := (inode_table sb ino)
                         \<lparr>i_size :=
                            (if ppos + min len (extent_end cfg (extents (inode_table sb ino) i) - ppos)
                                  > i_size (inode_table sb ino)
                             then ppos + min len (extent_end cfg (extents (inode_table sb ino) i) - ppos)
                             else i_size (inode_table sb ino))\<rparr>)\<rparr>)
                ino buf (i + 1)
                (ppos + min len (extent_end cfg (extents (inode_table sb ino) i) - ppos))
                (bytes_written + min len (extent_end cfg (extents (inode_table sb ino) i) - ppos))
                (len - min len (extent_end cfg (extents (inode_table sb ino) i) - ppos)))
         else write_extents cfg sb ino buf (i + 1) ppos bytes_written len)
      else (Inr (), sb, ppos, bytes_written, len))"
  by pat_completeness auto
termination
  by (relation "measure (\<lambda>(cfg, sb, ino, buf, i, ppos, bw, len). extent_count (inode_table sb ino) - i)")
     auto

declare write_extents.simps [simp del]

text \<open>
  The \<^verbatim>\<open>while (len > 0)\<close> loop of \<^verbatim>\<open>osfs_write\<close>: a pass over the extents, then one
  more extent when input remains. The result is the return value, the state and the
  file position.
\<close>

function write_loop ::
  "osfs_params \<Rightarrow> osfs_sb_info \<Rightarrow> nat \<Rightarrow> string \<Rightarrow> nat \<Rightarrow> nat \<Rightarrow> nat \<Rightarrow> (errno + nat) \<times> osfs_sb_info \<times> nat"
where
  "write_loop cfg sb ino buf ppos bytes_written len =
     (if len > 0 then
        (case write_extents cfg sb ino buf 0 ppos bytes_written len of
           (Inl e, sb1, ppos1, bytes_written1, len1) \<Rightarrow> (Inl e, sb1, ppos1)
         | (Inr _, sb1, ppos1, bytes_written1, len1) \<Rightarrow>
             if len1 > 0 then
               (case alloc_extent_at sb1 1 ino of
                  (Inl e, sb2) \<Rightarrow> (Inl e, sb2, ppos1)
                | (Inr _, sb2) \<Rightarrow> write_loop cfg sb2 ino buf ppos1 bytes_written1 len1)
             else (Inr bytes_written1, sb1, ppos1))
      else (Inr bytes_written, sb, ppos))"
  by pat_completeness auto

definition osfs_write ::
  "osfs_params \<Rightarrow> osfs_sb_info \<Rightarrow> nat \<Rightarrow> string \<Rightarrow> nat \<Rightarrow> nat \<Rightarrow> (errno + nat) \<times> osfs_sb_info \<times> nat"
where
  "osfs_write cfg sb ino buf len ppos =
     (if extent_count (inode_table sb ino) = 0 then
        (case alloc_extent_at sb 1 ino of
           (Inl e, sb') \<Rightarrow> (Inl e, sb', ppos)
         | (Inr _, sb') \<Rightarrow>
             write_loop cfg
               (sb'\<lparr>inode_table := (inode_table sb')
                     (ino := (inode_table sb' ino)\<lparr>extent_count := 1\<rparr>)\<rparr>)
               ino buf ppos 0 len)
      else write_loop cfg sb ino buf ppos 0 len)"

section \<open>Properties and states used in the statements\<close>

text \<open>All four slots of the extent array are in use.\<close>

definition extent_slots_full :: "osfs_inode \<Rightarrow> bool" where
  "extent_slots_full inode =
     (ext_block_count (extents inode 0) \<noteq> 0 \<and> ext_block_count (extents inode 1) \<noteq> 0 \<and>
      ext_block_count (extents inode 2) \<noteq> 0 \<and> ext_block_count (extents inode 3) \<noteq> 0)"

text \<open>The blocks \<open>s, ..., s + n - 1\<close> exist and are all free; some such run exists.\<close>

definition free_run :: "osfs_sb_info \<Rightarrow> nat \<Rightarrow> nat \<Rightarrow> bool" where
  "free_run sb s n = (s + n \<le> block_count sb \<and> (\<forall>j\<in>{s..<s + n}. j \<notin> block_bitmap sb))"

definition has_free_run :: "osfs_sb_info \<Rightarrow> nat \<Rightarrow> bool" where
  "has_free_run sb n = (\<exists>s\<in>{0..block_count sb}. free_run sb s n)"

text \<open>The two counter invariants of the superblock.\<close>

definition counters_ok :: "osfs_sb_info \<Rightarrow> bool" where
  "counters_ok sb =
     (nr_free_blocks sb + card (block_bitmap sb) = block_count sb \<and>
      nr_free_inodes sb + card (inode_bitmap sb) = inode_count sb)"

text \<open>
  A volume right after it is made: \<open>ninodes\<close> inodes and \<open>nblocks\<close> blocks, a zeroed
  data region, and the root directory as inode 1 with no extent yet.
\<close>

definition S_IFDIR_0755 :: nat where
  "S_IFDIR_0755 = 16877"

definition S_IFREG_0644 :: nat where
  "S_IFREG_0644 = 33188"

definition fresh_volume :: "nat \<Rightarrow> nat \<Rightarrow> osfs_sb_info" where
  "fresh_volume ninodes nblocks =
     \<lparr>inode_count = ninodes, block_count = nblocks,
      nr_free_inodes = ninodes - 1, nr_free_blocks = nblocks,
      inode_bitmap = {1}, block_bitmap = {},
      inode_table = (\<lambda>_. zero_inode)(1 := zero_inode\<lparr>i_ino := 1, i_mode := S_IFDIR_0755\<rparr>),
      data_blocks = (\<lambda>_. CHR 0x00),
      dir_blocks = (\<lambda>_. \<lparr>filename = [], inode_no = 0\<rparr>)\<rparr>"

text \<open>Blocks of 4096 bytes, names of up to 255 bytes, directory entries of 260 bytes.\<close>

definition cfg4096 :: osfs_params where
  "cfg4096 = \<lparr>BLOCK_SIZE = 4096, MAX_FILENAME_LEN = 255, DIRENT_SIZE = 260\<rparr>"

text \<open>
  Two volumes for the allocation scenarios: one whose three free blocks 0, 2 and 4 are
  pairwise not adjacent, and one whose two blocks are both in use.
\<close>

definition fragmented_volume :: osfs_sb_info where
  "fragmented_volume = (fresh_volume 4 5)\<lparr>block_bitmap := {1, 3}, nr_free_blocks := 3\<rparr>"

definition full_volume :: osfs_sb_info where
  "full_volume = (fresh_volume 4 2)\<lparr>block_bitmap := {0, 1}, nr_free_blocks := 0\<rparr>"

text \<open>The superblock and the inode after \<open>n\<close> successive calls of \<^verbatim>\<open>osfs_alloc_extent\<close> on the same inode.\<close>

fun alloc_extent_times :: "nat \<Rightarrow> osfs_sb_info \<Rightarrow> nat \<Rightarrow> osfs_inode \<Rightarrow> osfs_sb_info \<times> osfs_inode" where
  "alloc_extent_times 0 sb rb inode = (sb, inode)"
| "alloc_extent_times (Suc n) sb rb inode =
     (case osfs_alloc_extent sb rb inode of (r, sb', inode') \<Rightarrow> alloc_extent_times n sb' rb inode')"

text \<open>
  The name and inode number that \<^verbatim>\<open>osfs_add_dir_entry\<close> stores in the entry it fills.
\<close>

definition new_dirent :: "string \<Rightarrow> nat \<Rightarrow> nat \<Rightarrow> osfs_dir_entry" where
  "new_dirent name name_len ino =
     \<lparr>filename = takeWhile (\<lambda>c. c \<noteq> CHR 0x00) (take name_len name), inode_no = ino\<rparr>"

text \<open>
  The entries of a directory as \<^verbatim>\<open>osfs_add_dir_entry\<close> counts and reads them: extent
  \<open>i\<close> has \<open>dirent_count\<close> entries, entry \<open>k\<close> of it is free when its inode number is
  0. \<open>first_free_dirent\<close> says that \<open>a\<close> is the address of the free entry that comes
  first in extent order, then slot order.
\<close>

definition dirent_count :: "osfs_params \<Rightarrow> osfs_inode \<Rightarrow> nat \<Rightarrow> nat" where
  "dirent_count cfg inode i = ext_block_count (extents inode i) * (BLOCK_SIZE cfg div DIRENT_SIZE cfg)"

definition dirent_free :: "osfs_params \<Rightarrow> osfs_sb_info \<Rightarrow> osfs_inode \<Rightarrow> nat \<Rightarrow> nat \<Rightarrow> bool" where
  "dirent_free cfg sb inode i k = (inode_no (dir_blocks sb (dirent_addr cfg (extents inode i) k)) = 0)"

definition has_free_dirent :: "osfs_params \<Rightarrow> osfs_sb_info \<Rightarrow> osfs_inode \<Rightarrow> bool" where
  "has_free_dirent cfg sb inode =
     (\<exists>i<extent_count inode. \<exists>k<dirent_count cfg inode i. dirent_free cfg sb inode i k)"

definition first_free_dirent :: "osfs_params \<Rightarrow> osfs_sb_info \<Rightarrow> osfs_inode \<Rightarrow> nat \<Rightarrow> bool" where
  "first_free_dirent cfg sb inode a =
     (\<exists>i<extent_count inode. \<exists>k<dirent_count cfg inode i.
        a = dirent_addr cfg (extents inode i) k \<and> dirent_free cfg sb inode i k \<and>
        (\<forall>k'<k. \<not> dirent_free cfg sb inode i k') \<and>
        (\<forall>i'<i. \<forall>k'<dirent_count cfg inode i'. \<not> dirent_free cfg sb inode i' k'))"

text \<open>
  The volume \<open>fresh_volume 50 nblocks\<close> after the file \<open>a\<close> has been created in the root
  directory: the file is inode 2 and holds the blocks 0 and 1, the directory holds
  block 2, and the entry for \<open>a\<close> is the first one of that block.
\<close>

definition volume_with_file :: "nat \<Rightarrow> osfs_sb_info" where
  "volume_with_file nblocks =
     \<lparr>inode_count = 50, block_count = nblocks,
      nr_free_inodes = 47, nr_free_blocks = nblocks - 3,
      inode_bitmap = {1, 2}, block_bitmap = {0, 1, 2},
      inode_table = (\<lambda>_. zero_inode)
        (1 := zero_inode\<lparr>i_ino := 1, i_mode := S_IFDIR_0755, i_size := 260,
                extents := (extents zero_inode)(0 := \<lparr>start_block = 2, ext_block_count = 1\<rparr>),
                extent_count := 1\<rparr>,
         2 := zero_inode\<lparr>i_ino := 2, i_mode := S_IFREG_0644,
                extents := (extents zero_inode)
                  (0 := \<lparr>start_block = 0, ext_block_count = 1\<rparr>,
                   1 := \<lparr>start_block = 1, ext_block_count = 1\<rparr>),
                extent_count := 1\<rparr>),
      data_blocks = (\<lambda>_. CHR 0x00),
      dir_blocks = (\<lambda>_. \<lparr>filename = [], inode_no = 0\<rparr>)(8192 := \<lparr>filename = ''a'', inode_no = 2\<rparr>)\<rparr>"

text \<open>Input for a write of 5000 bytes: 4096 times \<open>a\<close>, then 904 times \<open>b\<close>.\<close>

definition buf5000 :: string where
  "buf5000 = replicate 4096 CHR ''a'' @ replicate 904 CHR ''b''"

text \<open>The volume after these 5000 bytes have been written at offset 0 of inode 2.\<close>

definition written_volume :: osfs_sb_info where
  "written_volume =
      (volume_with_file 100)
        \<lparr>block_bitmap := {3, 0, 1, 2}, nr_free_blocks := 96,
         data_blocks := copy_in (copy_in (\<lambda>_. CHR 0x00) 0 buf5000 0 4096) 0 buf5000 4096 904,
         inode_table := (inode_table (volume_with_file 100))
           (2 := zero_inode\<lparr>i_ino := 2, i_mode := S_IFREG_0644, i_size := 5000,
                  extents := (extents zero_inode)
                    (0 := \<lparr>start_block = 0, ext_block_count = 1\<rparr>,
                     1 := \<lparr>start_block = 1, ext_block_count = 1\<rparr>,
                     2 := \<lparr>start_block = 3, ext_block_count = 1\<rparr>),
                  extent_count := 2\<rparr>)\<rparr>"

text \<open>
  A volume of one block whose bitmap is full while the free-block counter says 1.
\<close>

definition drifted_volume :: osfs_sb_info where
  "drifted_volume = (fresh_volume 50 1)\<lparr>block_bitmap := {0}\<rparr>"

text \<open>A volume whose data region holds no free directory entry anywhere.\<close>

definition garbage_dir_volume :: osfs_sb_info where
  "garbage_dir_volume =
     (fresh_volume 50 100)\<lparr>dir_blocks := (\<lambda>_. \<lparr>filename = ''x'', inode_no = 7\<rparr>)\<rparr>"

text \<open>
  Volumes whose root directory has \<open>n\<close> one-block extents \<open>exts\<close> and two entries:
  \<open>a\<close> (inode 2) in the first slot of block 0 and \<open>b\<close> (inode 3) at byte \<open>addr_b\<close>
  of the data region. In \<open>dir_with_hole\<close> the directory has one extent and \<open>b\<close> is
  in its third slot, the second being free; in \<open>dir_two_extents\<close> it has two extents
  and \<open>b\<close> is in the first slot of the second.
\<close>

definition dir_entries_volume :: "(nat \<Rightarrow> osfs_extent) \<Rightarrow> nat \<Rightarrow> nat \<Rightarrow> osfs_sb_info" where
  "dir_entries_volume exts n addr_b =
     (fresh_volume 50 100)
       \<lparr>nr_free_inodes := 47, nr_free_blocks := 100 - n,
        inode_bitmap := {1, 2, 3}, block_bitmap := {0..<n},
        inode_table := (inode_table (fresh_volume 50 100))
          (1 := zero_inode\<lparr>i_ino := 1, i_mode := S_IFDIR_0755, i_size := 520,
                  extents := exts, extent_count := n\<rparr>),
        dir_blocks := (dir_blocks (fresh_volume 50 100))
          (0 := \<lparr>filename = ''a'', inode_no = 2\<rparr>, addr_b := \<lparr>filename = ''b'', inode_no = 3\<rparr>)\<rparr>"

definition dir_with_hole :: osfs_sb_info where
  "dir_with_hole =
     dir_entries_volume ((extents zero_inode)(0 := \<lparr>start_block = 0, ext_block_count = 1\<rparr>)) 1 520"

definition dir_two_extents :: osfs_sb_info where
  "dir_two_extents =
     dir_entries_volume ((extents zero_inode)(0 := \<lparr>start_block = 0, ext_block_count = 1\<rparr>,
                                             1 := \<lparr>start_block = 1, ext_block_count = 1\<rparr>)) 2 4096"




section \<open>Extent allocation\<close>

lemma set_bits_eq: "set_bits bm j hi = bm \<union> {j..<hi}"
proof (induction bm j hi rule: set_bits.induct)
  case (1 bm j hi)
  show ?case
  proof (cases "j < hi")
    case True
    then have "insert j bm \<union> {j + 1..<hi} = bm \<union> {j..<hi}"
      by auto
    with True "1.IH" show ?thesis
      by (subst set_bits.simps) (simp only: if_True)
  next
    case False
    then show ?thesis by (subst set_bits.simps) simp
  qed
qed

lemma alloc_scan_zero: "rb = 0 \<Longrightarrow> alloc_scan sb rb inode i s c = (Inl ENOSPC, sb, inode)"
proof (induction sb rb inode i s c rule: alloc_scan.induct)
  case (1 sb rb inode i s c)
  show ?case
    using "1.IH" "1.prems" by (subst alloc_scan.simps) simp
qed

lemma find_free_extent_full_aux:
  "extent_slots_full inode \<Longrightarrow> k \<le> 4 \<Longrightarrow> find_free_extent inode k = 4"
proof (induction inode k rule: find_free_extent.induct)
  case (1 inode k)
  show ?case
  proof (cases "k < 4")
    case True
    then have "k = 0 \<or> k = 1 \<or> k = 2 \<or> k = 3" by arith
    with 1 True show ?thesis
      by (subst find_free_extent.simps) (auto simp: extent_slots_full_def)
  next
    case False
    then show ?thesis by (subst find_free_extent.simps) simp
  qed
qed

lemma alloc_scan_full:
  "extent_slots_full inode \<Longrightarrow> alloc_scan sb rb inode i s c = (Inl ENOSPC, sb, inode)"
proof (induction sb rb inode i s c rule: alloc_scan.induct)
  case (1 sb rb inode i s c)
  show ?case
    using "1.IH" "1.prems"
    by (subst alloc_scan.simps) (simp add: find_free_extent_full_aux)
qed

lemma alloc_scan_failure:
  "fst (alloc_scan sb rb inode i s c) \<noteq> Inr () \<Longrightarrow>
   alloc_scan sb rb inode i s c = (Inl ENOSPC, sb, inode)"
proof (induction sb rb inode i s c rule: alloc_scan.induct)
  case (1 sb rb inode i s c)
  from "1.prems" "1.IH" show ?case
    by (subst alloc_scan.simps, subst (asm) alloc_scan.simps) (simp split: if_splits)
qed

lemma alloc_scan_success_run:
  "fst (alloc_scan sb rb inode i s c) = Inr () \<Longrightarrow> c \<le> i \<Longrightarrow> (0 < c \<longrightarrow> s = i - c) \<Longrightarrow>
   (\<forall>j\<in>{i - c..<i}. j \<notin> block_bitmap sb) \<Longrightarrow> has_free_run sb rb"
proof (induction sb rb inode i s c rule: alloc_scan.induct)
  case (1 sb rb inode i s c)
  show ?case
  proof (cases "i < block_count sb")
    case False
    with "1.prems"(1) show ?thesis by (subst (asm) alloc_scan.simps) simp
  next
    case inb: True
    show ?thesis
    proof (cases "i \<in> block_bitmap sb")
      case True
      with inb "1.prems"(1) have "fst (alloc_scan sb rb inode (i + 1) s 0) = Inr ()"
        by (subst (asm) alloc_scan.simps) simp
      with inb True "1.IH"(2) show ?thesis by simp
    next
      case free: False
      have run: "\<forall>j\<in>{i - c..<i + 1}. j \<notin> block_bitmap sb"
        using free "1.prems"(4) by (auto simp: less_Suc_eq)
      show ?thesis
      proof (cases "c + 1 = rb")
        case True
        have "free_run sb (i - c) rb"
          using True inb run "1.prems"(2) by (auto simp: free_run_def)
        then show ?thesis
          using inb by (auto simp: has_free_run_def intro!: bexI [of _ "i - c"])
      next
        case False
        with inb free "1.prems"(1)
        have "fst (alloc_scan sb rb inode (i + 1) (if c = 0 then i else s) (c + 1)) = Inr ()"
          by (subst (asm) alloc_scan.simps) simp
        moreover have "c + 1 \<le> i + 1" using "1.prems"(2) by simp
        moreover have "(if c = 0 then i else s) = i + 1 - (c + 1)"
          using "1.prems"(2,3) by auto
        moreover have "\<forall>j\<in>{i + 1 - (c + 1)..<i + 1}. j \<notin> block_bitmap sb"
          using run by simp
        ultimately show ?thesis
          using "1.IH"(1) [OF inb free False] by simp
      qed
    qed
  qed
qed

lemma find_free_extent_slot:
  "k \<le> 4 \<Longrightarrow> find_free_extent inode k \<noteq> 4 \<Longrightarrow>
   find_free_extent inode k < 4 \<and> ext_block_count (extents inode (find_free_extent inode k)) = 0"
proof (induction inode k rule: find_free_extent.induct)
  case (1 inode k)
  show ?case
  proof (cases "k < 4")
    case True
    show ?thesis
    proof (cases "ext_block_count (extents inode k) = 0")
      case z: True
      with True have "find_free_extent inode k = k" by (subst find_free_extent.simps) simp
      with True z show ?thesis by simp
    next
      case nz: False
      with True have eq: "find_free_extent inode k = find_free_extent inode (k + 1)"
        by (subst find_free_extent.simps) simp
      with "1.IH" [OF True nz] "1.prems" True show ?thesis by simp
    qed
  next
    case False
    then have "find_free_extent inode k = 4" by (subst find_free_extent.simps) simp
    with "1.prems" show ?thesis by simp
  qed
qed

lemma free_slots_fill:
  assumes "k < 4" "ext_block_count (extents inode k) = 0" "n \<noteq> 0"
  shows "free_slots (inode\<lparr>extents := (extents inode)(k := \<lparr>start_block = st, ext_block_count = n\<rparr>),
                          extent_count := ec\<rparr>) + 1 = free_slots inode"
proof -
  from assms(1) have "k = 0 \<or> k = 1 \<or> k = 2 \<or> k = 3" by arith
  with assms(2,3) show ?thesis
    by (auto simp: free_slots_def)
qed

lemma alloc_scan_success:
  "alloc_scan sb rb inode i s c = (Inr u, sb', inode') \<Longrightarrow>
   rb \<noteq> 0 \<and> find_free_extent inode 0 < 4 \<and>
   ext_block_count (extents inode (find_free_extent inode 0)) = 0 \<and>
   (\<exists>st. inode' = inode\<lparr>extents := (extents inode)
                       (find_free_extent inode 0 := \<lparr>start_block = st, ext_block_count = rb\<rparr>),
                     extent_count := extent_count inode + 1\<rparr> \<and>
         sb' = sb\<lparr>block_bitmap := block_bitmap sb \<union> {st..<st + rb},
                  nr_free_blocks := u32_sub (nr_free_blocks sb) rb\<rparr>)"
proof (induction sb rb inode i s c rule: alloc_scan.induct)
  case (1 sb rb inode i s c)
  show ?case
  proof (cases "i < block_count sb \<and> i \<notin> block_bitmap sb \<and> c + 1 = rb")
    case True
    with "1.prems" have nf: "find_free_extent inode 0 \<noteq> 4"
      by (subst (asm) alloc_scan.simps) (auto split: if_splits)
    from find_free_extent_slot [OF _ nf]
    have slot: "find_free_extent inode 0 < 4"
      "ext_block_count (extents inode (find_free_extent inode 0)) = 0" by simp_all
    from True have "rb \<noteq> 0" by auto
    moreover from True nf "1.prems" have
      "inode' = inode\<lparr>extents := (extents inode)
                       (find_free_extent inode 0 :=
                          \<lparr>start_block = (if c = 0 then i else s), ext_block_count = rb\<rparr>),
                     extent_count := extent_count inode + 1\<rparr> \<and>
       sb' = sb\<lparr>block_bitmap := block_bitmap sb \<union>
                   {(if c = 0 then i else s)..<(if c = 0 then i else s) + rb},
                nr_free_blocks := u32_sub (nr_free_blocks sb) rb\<rparr>"
      by (subst (asm) alloc_scan.simps) (simp add: set_bits_eq)
    ultimately show ?thesis using slot by blast
  next
    case False
    with "1.prems" "1.IH" show ?thesis
      by (subst (asm) alloc_scan.simps) (auto split: if_splits)
  qed
qed

lemma alloc_extent_at_success:
  assumes "alloc_extent_at sb rb ino = (Inr u, sb')"
  shows "free_slots (inode_table sb' ino) + 1 = free_slots (inode_table sb ino)"
    and "extent_count (inode_table sb' ino) = extent_count (inode_table sb ino) + 1"
    and "i_size (inode_table sb' ino) = i_size (inode_table sb ino)"
    and "dir_blocks sb' = dir_blocks sb"
    and "data_blocks sb' = data_blocks sb"
    and "k \<noteq> ino \<Longrightarrow> inode_table sb' k = inode_table sb k"
proof -
  obtain r sb1 inode1 where a: "osfs_alloc_extent sb rb (inode_table sb ino) = (r, sb1, inode1)"
    by (cases "osfs_alloc_extent sb rb (inode_table sb ino)") auto
  with assms have r: "r = Inr u" and sb': "sb' = sb1\<lparr>inode_table := (inode_table sb1)(ino := inode1)\<rparr>"
    by (auto simp: alloc_extent_at_def)
  from a r have "alloc_scan sb rb (inode_table sb ino) 0 0 0 = (Inr u, sb1, inode1)"
    by (simp add: osfs_alloc_extent_def)
  from alloc_scan_success [OF this] obtain st where
    rb: "rb \<noteq> 0" and k: "find_free_extent (inode_table sb ino) 0 < 4"
    and z: "ext_block_count (extents (inode_table sb ino) (find_free_extent (inode_table sb ino) 0)) = 0"
    and i1: "inode1 = (inode_table sb ino)\<lparr>extents := (extents (inode_table sb ino))
                       (find_free_extent (inode_table sb ino) 0 := \<lparr>start_block = st, ext_block_count = rb\<rparr>),
                     extent_count := extent_count (inode_table sb ino) + 1\<rparr>"
    and s1: "sb1 = sb\<lparr>block_bitmap := block_bitmap sb \<union> {st..<st + rb},
                  nr_free_blocks := u32_sub (nr_free_blocks sb) rb\<rparr>"
    by blast
  show "free_slots (inode_table sb' ino) + 1 = free_slots (inode_table sb ino)"
    using free_slots_fill [OF k z rb] by (simp add: sb' i1)
  show "extent_count (inode_table sb' ino) = extent_count (inode_table sb ino) + 1"
    by (simp add: sb' i1)
  show "i_size (inode_table sb' ino) = i_size (inode_table sb ino)"
    by (simp add: sb' i1)
  show "dir_blocks sb' = dir_blocks sb" by (simp add: sb' s1)
  show "data_blocks sb' = data_blocks sb" by (simp add: sb' s1)
  show "k \<noteq> ino \<Longrightarrow> inode_table sb' k = inode_table sb k" by (simp add: sb' s1)
qed

lemma alloc_extent_at_failure:
  assumes "alloc_extent_at sb rb ino = (Inl e, sb')"
  shows "e = ENOSPC \<and> sb' = sb"
proof -
  have "fst (alloc_scan sb rb (inode_table sb ino) 0 0 0) \<noteq> Inr ()"
    using assms by (auto simp: alloc_extent_at_def osfs_alloc_extent_def split: prod.splits)
  from alloc_scan_failure [OF this] assms show ?thesis
    by (auto simp: alloc_extent_at_def osfs_alloc_extent_def)
qed

lemmas alloc_eval =
  osfs_alloc_extent_def alloc_scan.simps find_free_extent.simps set_bits.simps
  fresh_volume_def zero_inode_def u32_sub_def u32_def

lemma four_allocs:
  "alloc_extent_times 4 (fresh_volume 4 8) 1 zero_inode =
     ((fresh_volume 4 8)\<lparr>block_bitmap := {0, 1, 2, 3}, nr_free_blocks := 4\<rparr>,
      zero_inode\<lparr>extents := (\<lambda>k. if k < 4 then \<lparr>start_block = k, ext_block_count = 1\<rparr>
                                  else \<lparr>start_block = 0, ext_block_count = 0\<rparr>),
                 extent_count := 4\<rparr>)"
  apply (simp add: numeral_eq_Suc)
  apply (simp add: alloc_eval fun_eq_iff)
  apply (auto simp: numeral_eq_Suc less_Suc_eq)
  done

text \<open>
  C10. A request for zero blocks fails with \<^verbatim>\<open>-ENOSPC\<close> in every state, also on a
  volume with every block free, and changes neither the superblock nor the inode: the
  run length is compared with the request only after it has been incremented.
\<close>

theorem alloc_extent_zero_blocks:
  "osfs_alloc_extent sb 0 inode = (Inl ENOSPC, sb, inode)"
  by (simp add: osfs_alloc_extent_def alloc_scan_zero)

text \<open>
  C3. The call succeeds only if some run of \<open>required_blocks\<close> consecutive free blocks
  exists. Without such a run it fails with \<^verbatim>\<open>-ENOSPC\<close> and changes nothing, whatever the
  free-block counter says, so also when enough scattered blocks are free.
\<close>

theorem alloc_extent_contiguous:
  "(fst (osfs_alloc_extent sb required_blocks inode) = Inr () \<longrightarrow> has_free_run sb required_blocks) \<and>
   (\<not> has_free_run sb required_blocks \<longrightarrow>
      osfs_alloc_extent sb required_blocks inode = (Inl ENOSPC, sb, inode))"
proof -
  have a: "fst (osfs_alloc_extent sb required_blocks inode) = Inr () \<Longrightarrow> has_free_run sb required_blocks"
    unfolding osfs_alloc_extent_def by (erule alloc_scan_success_run) simp_all
  have b: "\<not> has_free_run sb required_blocks \<Longrightarrow>
      osfs_alloc_extent sb required_blocks inode = (Inl ENOSPC, sb, inode)"
    using a alloc_scan_failure [of sb required_blocks inode 0 0 0]
    unfolding osfs_alloc_extent_def by blast
  from a b show ?thesis by blast
qed

theorem alloc_extent_contiguous_witness:
  "\<not> has_free_run fragmented_volume 2 \<and> 2 \<le> nr_free_blocks fragmented_volume \<and>
   osfs_alloc_extent fragmented_volume 2 zero_inode = (Inl ENOSPC, fragmented_volume, zero_inode) \<and>
   fst (osfs_alloc_extent fragmented_volume 1 zero_inode) = Inr () \<and>
   has_free_run fragmented_volume 1"
proof -
  have no: "\<not> has_free_run fragmented_volume 2"
  proof
    assume "has_free_run fragmented_volume 2"
    then obtain s :: nat where s: "s + 2 \<le> 5" "\<forall>j\<in>{s..<s + 2}. j \<noteq> 1 \<and> j \<noteq> 3"
      by (auto simp: has_free_run_def free_run_def fragmented_volume_def fresh_volume_def)
    have "s \<in> {s..<s + 2}" and "s + 1 \<in> {s..<s + 2}" by simp_all
    with s(2) have "s \<noteq> 1 \<and> s \<noteq> 3" and "s + 1 \<noteq> 1 \<and> s + 1 \<noteq> 3" by blast+
    then have "s \<noteq> 0 \<and> s \<noteq> 1 \<and> s \<noteq> 2 \<and> s \<noteq> 3" by simp
    then show False using s(1) by arith
  qed
  have ok: "fst (osfs_alloc_extent fragmented_volume 1 zero_inode) = Inr ()"
    by (simp add: fragmented_volume_def alloc_eval)
  from no ok alloc_extent_contiguous [of fragmented_volume 2 zero_inode]
    alloc_extent_contiguous [of fragmented_volume 1 zero_inode]
  show ?thesis by (simp add: fragmented_volume_def)
qed

text \<open>
  C4, as the code has it. On an inode whose four extent slots are all in use the call
  fails and changes nothing, for every request and every bitmap; the code it returns is
  \<^verbatim>\<open>-ENOSPC\<close>, the same code as for a volume without space. In particular the fifth
  call on an inode fails this way.
\<close>

theorem alloc_extent_slots_full:
  "extent_slots_full inode \<Longrightarrow> osfs_alloc_extent sb rb inode = (Inl ENOSPC, sb, inode)"
  by (simp add: osfs_alloc_extent_def alloc_scan_full)

theorem alloc_extent_slots_full_witness:
  "extent_slots_full (snd (alloc_extent_times 4 (fresh_volume 4 8) 1 zero_inode)) \<and>
   osfs_alloc_extent (fst (alloc_extent_times 4 (fresh_volume 4 8) 1 zero_inode)) 1
       (snd (alloc_extent_times 4 (fresh_volume 4 8) 1 zero_inode)) =
     (Inl ENOSPC, fst (alloc_extent_times 4 (fresh_volume 4 8) 1 zero_inode),
      snd (alloc_extent_times 4 (fresh_volume 4 8) 1 zero_inode))"
proof -
  have full: "extent_slots_full (snd (alloc_extent_times 4 (fresh_volume 4 8) 1 zero_inode))"
    unfolding four_allocs by (simp add: extent_slots_full_def)
  from alloc_extent_slots_full [OF full] full show ?thesis by simp
qed

text \<open>
  C4 as stated asks for an error kind distinct from the one for missing space. After
  four allocations on a volume that still has free blocks, the fifth call returns
  \<^verbatim>\<open>-ENOSPC\<close>, which is also what a volume without a free block returns.
\<close>

theorem alloc_extent_slots_full_counterexample:
  "has_free_run (fst (alloc_extent_times 4 (fresh_volume 4 8) 1 zero_inode)) 1 \<and>
   fst (osfs_alloc_extent (fst (alloc_extent_times 4 (fresh_volume 4 8) 1 zero_inode)) 1
          (snd (alloc_extent_times 4 (fresh_volume 4 8) 1 zero_inode))) = Inl ENOSPC \<and>
   \<not> has_free_run full_volume 1 \<and>
   fst (osfs_alloc_extent full_volume 1 zero_inode) = Inl ENOSPC"
proof -
  have a: "has_free_run (fst (alloc_extent_times 4 (fresh_volume 4 8) 1 zero_inode)) 1"
    unfolding four_allocs
    by (simp add: has_free_run_def free_run_def fresh_volume_def) (rule bexI [of _ 4], simp_all)
  have b: "fst (osfs_alloc_extent (fst (alloc_extent_times 4 (fresh_volume 4 8) 1 zero_inode)) 1
          (snd (alloc_extent_times 4 (fresh_volume 4 8) 1 zero_inode))) = Inl ENOSPC"
    unfolding four_allocs by (simp add: alloc_eval)
  have c: "\<not> has_free_run full_volume 1"
    by (auto simp: has_free_run_def free_run_def full_volume_def fresh_volume_def)
  have d: "fst (osfs_alloc_extent full_volume 1 zero_inode) = Inl ENOSPC"
    by (simp add: full_volume_def alloc_eval)
  from a b c d show ?thesis by simp
qed

section \<open>Termination of the two retry loops\<close>

text \<open>
  \<^verbatim>\<open>osfs_add_dir_entry\<close> calls itself, and the \<^verbatim>\<open>while\<close> loop of \<^verbatim>\<open>osfs_write\<close>
  repeats, only after an extent allocation that succeeded, and each success uses up one
  of the four slots of the inode.
\<close>

lemma free_slots_extents:
  "extents a = extents b \<Longrightarrow> free_slots a = free_slots b"
  by (simp add: free_slots_def)

lemma write_extents_props:
  "write_extents cfg sb ino buf i ppos bw len = (r, sb', ppos', bw', len') \<Longrightarrow>
   extents (inode_table sb' ino) = extents (inode_table sb ino) \<and>
   extent_count (inode_table sb' ino) = extent_count (inode_table sb ino) \<and>
   i_size (inode_table sb ino) \<le> i_size (inode_table sb' ino) \<and>
   ppos \<le> ppos' \<and> ppos' + len' = ppos + len \<and> bw' + len' = bw + len \<and>
   (ppos < ppos' \<longrightarrow> ppos' \<le> i_size (inode_table sb' ino)) \<and>
   (\<forall>e. r = Inl e \<longrightarrow> e = EFAULT)"
proof (induction cfg sb ino buf i ppos bw len arbitrary: r sb' ppos' bw' len'
       rule: write_extents.induct)
  case (1 cfg sb ino buf i ppos bw len)
  let ?e = "extents (inode_table sb ino) i"
  let ?n = "min len (extent_end cfg ?e - ppos)"
  show ?case
  proof (cases "i < extent_count (inode_table sb ino) \<and> len > 0")
    case False
    with "1.prems" show ?thesis
      by (subst (asm) write_extents.simps) auto
  next
    case run: True
    show ?thesis
    proof (cases "ppos \<ge> extent_start cfg ?e \<and> ppos < extent_end cfg ?e")
      case False
      with run "1.prems" have
        "write_extents cfg sb ino buf (i + 1) ppos bw len = (r, sb', ppos', bw', len')"
        by (subst (asm) write_extents.simps) auto
      from "1.IH"(2) [OF run False this] show ?thesis .
    next
      case inr: True
      show ?thesis
      proof (cases "bw + ?n > length buf")
        case True
        with run inr "1.prems" show ?thesis
          by (subst (asm) write_extents.simps) auto
      next
        case False
        define sb1 where "sb1 =
           sb\<lparr>data_blocks := copy_in (data_blocks sb) (ppos - extent_start cfg ?e) buf bw ?n,
              inode_table := (inode_table sb)
                (ino := (inode_table sb ino)
                   \<lparr>i_size := (if ppos + ?n > i_size (inode_table sb ino)
                               then ppos + ?n else i_size (inode_table sb ino))\<rparr>)\<rparr>"
        have e1: "extents (inode_table sb1 ino) = extents (inode_table sb ino)"
          and e2: "extent_count (inode_table sb1 ino) = extent_count (inode_table sb ino)"
          and e3: "i_size (inode_table sb1 ino) = max (i_size (inode_table sb ino)) (ppos + ?n)"
          by (simp_all add: sb1_def max_def)
        from run inr False "1.prems" have
          "write_extents cfg sb1 ino buf (i + 1) (ppos + ?n) (bw + ?n) (len - ?n)
             = (r, sb', ppos', bw', len')"
          unfolding sb1_def
          by (subst (asm) write_extents.simps) (simp only: run inr False if_True if_False simp_thms)
        from "1.IH"(1) [OF run inr False this [unfolded sb1_def], folded sb1_def]
        have ih: "extents (inode_table sb' ino) = extents (inode_table sb1 ino)"
          "extent_count (inode_table sb' ino) = extent_count (inode_table sb1 ino)"
          "i_size (inode_table sb1 ino) \<le> i_size (inode_table sb' ino)"
          "ppos + ?n \<le> ppos'" "ppos' + len' = ppos + ?n + (len - ?n)"
          "bw' + len' = bw + ?n + (len - ?n)"
          "ppos + ?n < ppos' \<longrightarrow> ppos' \<le> i_size (inode_table sb' ino)"
          "\<forall>e. r = Inl e \<longrightarrow> e = EFAULT"
          by blast+
        have n: "?n \<le> len" by simp
        have "ppos \<le> ppos'" using ih(4) by arith
        moreover have "ppos' + len' = ppos + len" using ih(5) n by arith
        moreover have "bw' + len' = bw + len" using ih(6) n by arith
        moreover have "i_size (inode_table sb ino) \<le> i_size (inode_table sb' ino)"
          using ih(3) e3 by arith
        moreover have "ppos < ppos' \<longrightarrow> ppos' \<le> i_size (inode_table sb' ino)"
          using ih(3,4,7) e3 by arith
        ultimately show ?thesis using ih(1,2,8) e1 e2 by simp
      qed
    qed
  qed
qed

lemma alloc_extent_at_slots:
  "(Inr u, sb') = alloc_extent_at sb rb ino \<Longrightarrow>
   free_slots (inode_table sb' ino) < free_slots (inode_table sb ino)"
  by (drule sym) (drule alloc_extent_at_success(1), arith)

lemma write_extents_slots:
  "(r, sb', ppos', bw', len') = write_extents cfg sb ino buf i ppos bw len \<Longrightarrow>
   free_slots (inode_table sb' ino) = free_slots (inode_table sb ino)"
  by (drule sym) (drule write_extents_props, blast intro: free_slots_extents)

termination osfs_add_dir_entry
  apply (relation "measure (\<lambda>(cfg, sb, dir, ino, name, name_len). free_slots (inode_table sb dir))")
   apply simp
  apply clarsimp
  apply (erule alloc_extent_at_slots)
  done

declare osfs_add_dir_entry.simps [simp del]

termination write_loop
  apply (relation "measure (\<lambda>(cfg, sb, ino, buf, ppos, bw, len). free_slots (inode_table sb ino))")
   apply simp
  apply clarsimp
  apply (drule write_extents_slots)
  apply (drule alloc_extent_at_slots)
  apply simp
  done

declare write_loop.simps [simp del]

section \<open>Inode allocation and creation\<close>

lemma get_free_inode_from_success:
  "get_free_inode_from sb k = (Inr ino, sb1) \<Longrightarrow>
   k \<le> ino \<and> ino < inode_count sb \<and> ino \<notin> inode_bitmap sb \<and>
   sb1 = sb\<lparr>inode_bitmap := insert ino (inode_bitmap sb),
            nr_free_inodes := u32_sub (nr_free_inodes sb) 1\<rparr>"
proof (induction sb k rule: get_free_inode_from.induct)
  case (1 sb k)
  show ?case
  proof (cases "k < inode_count sb \<and> k \<in> inode_bitmap sb")
    case True
    with "1.prems" have "get_free_inode_from sb (k + 1) = (Inr ino, sb1)"
      by (subst (asm) get_free_inode_from.simps) simp
    with "1.IH" True show ?thesis by auto
  next
    case False
    with "1.prems" show ?thesis
      by (subst (asm) get_free_inode_from.simps) (auto split: if_splits)
  qed
qed

lemma alloc_extent_at_inode_counters:
  "alloc_extent_at sb rb ino = (r, sb') \<Longrightarrow>
   inode_bitmap sb' = inode_bitmap sb \<and> nr_free_inodes sb' = nr_free_inodes sb \<and>
   inode_count sb' = inode_count sb"
proof (cases r)
  case (Inl e)
  assume "alloc_extent_at sb rb ino = (r, sb')"
  with Inl alloc_extent_at_failure [of sb rb ino e sb'] show ?thesis by simp
next
  case (Inr u)
  assume a: "alloc_extent_at sb rb ino = (r, sb')"
  obtain r1 sb1 inode1 where s: "osfs_alloc_extent sb rb (inode_table sb ino) = (r1, sb1, inode1)"
    by (cases "osfs_alloc_extent sb rb (inode_table sb ino)") auto
  with a Inr have "alloc_scan sb rb (inode_table sb ino) 0 0 0 = (Inr u, sb1, inode1)"
    and sb': "sb' = sb1\<lparr>inode_table := (inode_table sb1)(ino := inode1)\<rparr>"
    by (auto simp: alloc_extent_at_def osfs_alloc_extent_def)
  from alloc_scan_success [OF this(1)] sb' show ?thesis by auto
qed

lemmas new_inode_eval =
  osfs_new_inode_def osfs_get_free_inode_def get_free_inode_from.simps osfs_get_osfs_inode_def
  alloc_extent_at_def S_ISDIR_def S_ISREG_def S_ISLNK_def S_IFREG_0644_def

lemma new_inode_fresh:
  "osfs_new_inode (fresh_volume 50 100) True S_IFREG_0644 =
     (Inr 2,
      (fresh_volume 50 100)
        \<lparr>inode_bitmap := {2, 1}, nr_free_inodes := 47, block_bitmap := {0}, nr_free_blocks := 99,
         inode_table := (inode_table (fresh_volume 50 100))
           (2 := zero_inode\<lparr>i_ino := 2, i_mode := S_IFREG_0644,
                  extents := (extents zero_inode)(0 := \<lparr>start_block = 0, ext_block_count = 1\<rparr>),
                  extent_count := 1\<rparr>)\<rparr>)"
  by (simp add: new_inode_eval alloc_eval numeral_2_eq_2 [symmetric])

lemma drifted_volume_reached:
  "snd (osfs_alloc_data_block
          (osfs_free_data_block
             (osfs_free_data_block (snd (osfs_alloc_data_block (fresh_volume 50 1))) 0) 0))
     = drifted_volume"
  by (simp add: osfs_alloc_data_block_def alloc_data_block_from.simps osfs_free_data_block_def
      fresh_volume_def drifted_volume_def u32_def u32_sub_def)

lemma new_inode_drifted:
  "osfs_new_inode drifted_volume True S_IFREG_0644 =
     (Inl ENOSPC,
      drifted_volume
        \<lparr>inode_bitmap := {2, 1}, nr_free_inodes := 48,
         inode_table := (inode_table drifted_volume)
           (2 := zero_inode\<lparr>i_ino := 2, i_mode := S_IFREG_0644\<rparr>)\<rparr>)"
  by (simp add: new_inode_eval alloc_eval drifted_volume_def numeral_2_eq_2 [symmetric])

lemma get_free_inode_fresh:
  "osfs_get_free_inode (fresh_volume 50 100) =
     (Inr 2, (fresh_volume 50 100)\<lparr>inode_bitmap := {2, 1}, nr_free_inodes := 48\<rparr>)"
  by (simp add: osfs_get_free_inode_def get_free_inode_from.simps fresh_volume_def u32_sub_def
      numeral_2_eq_2 [symmetric])

lemma new_inode_enomem:
  "osfs_new_inode (fresh_volume 50 100) False S_IFREG_0644 =
     (Inl ENOMEM, (fresh_volume 50 100)\<lparr>inode_bitmap := {2, 1}, nr_free_inodes := 48\<rparr>)"
  by (simp add: new_inode_eval alloc_eval numeral_2_eq_2 [symmetric])

text \<open>
  C1. The counters are meant to satisfy
  \<open>nr_free_blocks + popcount(block_bitmap) = block_count\<close> and the same for inodes.
  On a fresh volume of 50 inodes and 100 blocks both hold; after one successful
  \<^verbatim>\<open>osfs_new_inode\<close> the inode bitmap has two bits set and the free-inode counter is 47:
  \<^verbatim>\<open>osfs_get_free_inode\<close> has decremented it, and \<^verbatim>\<open>osfs_new_inode\<close> decrements it again.
\<close>

theorem new_inode_counter_drift:
  "counters_ok (fresh_volume 50 100) \<and>
   fst (osfs_new_inode (fresh_volume 50 100) True S_IFREG_0644) = Inr 2 \<and>
   inode_bitmap (snd (osfs_new_inode (fresh_volume 50 100) True S_IFREG_0644)) = {2, 1} \<and>
   nr_free_inodes (snd (osfs_new_inode (fresh_volume 50 100) True S_IFREG_0644)) = 47 \<and>
   \<not> counters_ok (snd (osfs_new_inode (fresh_volume 50 100) True S_IFREG_0644))"
  unfolding new_inode_fresh by (simp add: counters_ok_def fresh_volume_def)

text \<open>
  C5, as the code has it. When \<^verbatim>\<open>osfs_new_inode\<close> fails after
  \<^verbatim>\<open>osfs_get_free_inode\<close> has reserved the number \<open>ino\<close>, nothing is rolled back: the
  bit of \<open>ino\<close>, clear before the call, is set in the state the call leaves, and the
  free-inode counter stays decremented by one. The failures that can follow the
  reservation are \<^verbatim>\<open>-ENOMEM\<close> and the \<^verbatim>\<open>-ENOSPC\<close> of the extent allocation.
\<close>

theorem new_inode_no_rollback:
  assumes "S_ISDIR mode \<or> S_ISREG mode \<or> S_ISLNK mode"
    and "nr_free_inodes sb \<noteq> 0" and "nr_free_blocks sb \<noteq> 0"
    and "osfs_get_free_inode sb = (Inr ino, sb1)"
    and "osfs_new_inode sb vfs_ok mode = (Inl e, sb')"
  shows "ino \<notin> inode_bitmap sb \<and>
     inode_bitmap sb' = insert ino (inode_bitmap sb) \<and>
     nr_free_inodes sb' = u32_sub (nr_free_inodes sb) 1 \<and>
     (e = ENOMEM \<or> e = ENOSPC)"
proof -
  from assms(4) have g: "get_free_inode_from sb 1 = (Inr ino, sb1)"
    by (simp add: osfs_get_free_inode_def)
  note s = get_free_inode_from_success [OF g]
  then have range: "ino \<noteq> 0" "\<not> inode_count sb1 \<le> ino" by auto
  define sb2 where "sb2 = sb1\<lparr>inode_table := (inode_table sb1)
        (ino := zero_inode\<lparr>i_ino := ino, i_mode := mode, i_size := 0, i_blocks := 0\<rparr>)\<rparr>"
  obtain r3 sb3 where a: "alloc_extent_at sb2 1 ino = (r3, sb3)"
    by (cases "alloc_extent_at sb2 1 ino") auto
  note c = alloc_extent_at_inode_counters [OF a]
  have sb2: "inode_bitmap sb2 = inode_bitmap sb1" "nr_free_inodes sb2 = nr_free_inodes sb1"
    by (simp_all add: sb2_def)
  show ?thesis
  proof (cases vfs_ok)
    case False
    with assms range have "e = ENOMEM" "sb' = sb1"
      by (auto simp: osfs_new_inode_def)
    with s show ?thesis by simp
  next
    case True
    show ?thesis
    proof (cases r3)
      case (Inl e3)
      with a alloc_extent_at_failure [of sb2 1 ino e3 sb3] have "e3 = ENOSPC" "sb3 = sb2" by simp_all
      with True assms range a Inl have "e = ENOSPC" "sb' = sb2"
        by (auto simp: osfs_new_inode_def osfs_get_osfs_inode_def sb2_def)
      with s sb2 show ?thesis by simp
    next
      case (Inr u)
      with True assms range a have False
        by (auto simp: osfs_new_inode_def osfs_get_osfs_inode_def sb2_def)
      then show ?thesis ..
    qed
  qed
qed

theorem new_inode_no_rollback_witness:
  "S_ISREG S_IFREG_0644 \<and> nr_free_inodes (fresh_volume 50 100) \<noteq> 0 \<and>
   nr_free_blocks (fresh_volume 50 100) \<noteq> 0 \<and>
   fst (osfs_get_free_inode (fresh_volume 50 100)) = Inr 2 \<and>
   fst (osfs_new_inode (fresh_volume 50 100) False S_IFREG_0644) = Inl ENOMEM \<and>
   2 \<notin> inode_bitmap (fresh_volume 50 100) \<and>
   inode_bitmap (snd (osfs_new_inode (fresh_volume 50 100) False S_IFREG_0644))
     = insert 2 (inode_bitmap (fresh_volume 50 100)) \<and>
   nr_free_inodes (snd (osfs_new_inode (fresh_volume 50 100) False S_IFREG_0644))
     = u32_sub (nr_free_inodes (fresh_volume 50 100)) 1"
proof -
  have m: "S_ISDIR S_IFREG_0644 \<or> S_ISREG S_IFREG_0644 \<or> S_ISLNK S_IFREG_0644"
    and reg: "S_ISREG S_IFREG_0644"
    by (simp_all add: S_ISREG_def S_IFREG_0644_def)
  have n: "nr_free_inodes (fresh_volume 50 100) \<noteq> 0" "nr_free_blocks (fresh_volume 50 100) \<noteq> 0"
    by (simp_all add: fresh_volume_def)
  from new_inode_no_rollback [OF m n get_free_inode_fresh new_inode_enomem] reg n
  show ?thesis
    unfolding get_free_inode_fresh new_inode_enomem fst_conv snd_conv by simp
qed

text \<open>
  C5 as stated asks for the reserved inode to be free again when the initial extent
  allocation fails. That allocation fails only when the free-block counter is not 0
  over a full bitmap; on a volume of one block, allocating the block, freeing it twice
  and allocating it again leaves such a state. There \<^verbatim>\<open>osfs_new_inode\<close> reserves
  inode 2, fails with \<^verbatim>\<open>-ENOSPC\<close>, and leaves bit 2 set and the counter at 48.
\<close>

theorem new_inode_no_rollback_counterexample:
  "snd (osfs_alloc_data_block
          (osfs_free_data_block
             (osfs_free_data_block (snd (osfs_alloc_data_block (fresh_volume 50 1))) 0) 0))
     = drifted_volume \<and>
   fst (osfs_get_free_inode drifted_volume) = Inr 2 \<and>
   fst (osfs_new_inode drifted_volume True S_IFREG_0644) = Inl ENOSPC \<and>
   2 \<notin> inode_bitmap drifted_volume \<and>
   2 \<in> inode_bitmap (snd (osfs_new_inode drifted_volume True S_IFREG_0644)) \<and>
   nr_free_inodes drifted_volume = 49 \<and>
   nr_free_inodes (snd (osfs_new_inode drifted_volume True S_IFREG_0644)) = 48"
  unfolding new_inode_drifted drifted_volume_reached
  by (simp add: drifted_volume_def fresh_volume_def osfs_get_free_inode_def
      get_free_inode_from.simps numeral_2_eq_2 [symmetric])

section \<open>Directory entries\<close>

lemma find_free_dirent_free:
  "find_free_dirent cfg sb e j n = Some a \<Longrightarrow> inode_no (dir_blocks sb a) = 0"
proof (induction cfg sb e j n rule: find_free_dirent.induct)
  case (1 cfg sb e j n)
  from "1.prems" "1.IH" show ?case
    by (subst (asm) find_free_dirent.simps) (auto split: if_splits)
qed

lemma add_dir_scan_free:
  "add_dir_scan cfg sb inode i = Some a \<Longrightarrow> inode_no (dir_blocks sb a) = 0"
proof (induction cfg sb inode i rule: add_dir_scan.induct)
  case (1 cfg sb inode i)
  from "1.prems" "1.IH" show ?case
    by (subst (asm) add_dir_scan.simps)
       (auto split: if_splits option.splits dest: find_free_dirent_free)
qed

lemma free_slots_le: "free_slots inode \<le> 4"
  by (simp add: free_slots_def)

lemma add_dir_entry_props:
  "name_len \<le> MAX_FILENAME_LEN cfg \<Longrightarrow>
   osfs_add_dir_entry cfg sb dir ino name name_len = (r, sb') \<Longrightarrow>
   (r = Inr () \<or> r = Inl ENOSPC) \<and>
   extent_count (inode_table sb' dir) + free_slots (inode_table sb' dir)
     = extent_count (inode_table sb dir) + free_slots (inode_table sb dir) \<and>
   free_slots (inode_table sb' dir) \<le> free_slots (inode_table sb dir) \<and>
   (r = Inr () \<longrightarrow>
      (\<exists>a. inode_no (dir_blocks sb a) = 0 \<and>
           dir_blocks sb' = (dir_blocks sb)(a := new_dirent name name_len ino))) \<and>
   (r = Inl ENOSPC \<longrightarrow> dir_blocks sb' = dir_blocks sb)"
proof (induction cfg sb dir ino name name_len arbitrary: r sb' rule: osfs_add_dir_entry.induct)
  case (1 cfg sb dir ino name name_len)
  have len: "\<not> name_len > MAX_FILENAME_LEN cfg" using "1.prems"(1) by simp
  show ?case
  proof (cases "add_dir_scan cfg sb (inode_table sb dir) 0")
    case (Some a)
    with len "1.prems"(2) have
      "r = Inr ()" "sb' = sb\<lparr>dir_blocks := (dir_blocks sb)(a := new_dirent name name_len ino)\<rparr>"
      by (subst (asm) osfs_add_dir_entry.simps, simp add: new_dirent_def)+
    moreover from Some have "inode_no (dir_blocks sb a) = 0" by (rule add_dir_scan_free)
    ultimately show ?thesis by auto
  next
    case None
    obtain x sb1 where a: "alloc_extent_at sb 1 dir = (x, sb1)"
      by (cases "alloc_extent_at sb 1 dir") auto
    show ?thesis
    proof (cases x)
      case (Inl e)
      with a alloc_extent_at_failure [of sb 1 dir e sb1] have "e = ENOSPC" "sb1 = sb" by simp_all
      with len None a Inl "1.prems"(2) have "r = Inl ENOSPC" "sb' = sb"
        by (subst (asm) osfs_add_dir_entry.simps, simp)+
      then show ?thesis by simp
    next
      case (Inr u)
      with len None a "1.prems"(2) have
        rec: "osfs_add_dir_entry cfg sb1 dir ino name name_len = (r, sb')"
        by (subst (asm) osfs_add_dir_entry.simps) simp
      from a Inr have a': "alloc_extent_at sb 1 dir = (Inr u, sb1)" by simp
      note s = alloc_extent_at_success [OF a']
      from "1.IH" [OF len None a [symmetric] Inr "1.prems"(1) rec] s(1,2,4)
      show ?thesis by auto
    qed
  qed
qed

lemmas dir_eval =
  osfs_create_def osfs_add_dir_entry.simps add_dir_scan.simps find_free_dirent.simps
  dirent_addr_def cfg4096_def

lemma create_fresh_100:
  "osfs_create cfg4096 (fresh_volume 50 100) True 1 ''a'' 1 S_IFREG_0644 =
     (Inr (), volume_with_file 100)"
  unfolding osfs_create_def new_inode_fresh
  apply (simp add: dir_eval alloc_extent_at_def alloc_eval volume_with_file_def)
  apply (auto simp: fun_eq_iff S_IFREG_0644_def)
  done


lemma add_dir_entry_garbage:
  "osfs_add_dir_entry cfg4096 garbage_dir_volume 1 2 ''a'' 1 =
     (Inl ENOSPC,
      garbage_dir_volume
        \<lparr>block_bitmap := {3, 2, 1, 0}, nr_free_blocks := 96,
         inode_table := (inode_table garbage_dir_volume)
           (1 := zero_inode\<lparr>i_ino := 1, i_mode := S_IFDIR_0755,
                  extents := (extents zero_inode)
                    (0 := \<lparr>start_block = 0, ext_block_count = 1\<rparr>,
                     1 := \<lparr>start_block = 1, ext_block_count = 1\<rparr>,
                     2 := \<lparr>start_block = 2, ext_block_count = 1\<rparr>,
                     3 := \<lparr>start_block = 3, ext_block_count = 1\<rparr>),
                  extent_count := 4\<rparr>)\<rparr>)"
  apply (simp add: dir_eval alloc_extent_at_def alloc_eval garbage_dir_volume_def)
  apply (auto simp: fun_eq_iff)
  done

lemma find_free_dirent_Some:
  "find_free_dirent cfg sb e j n = Some a \<Longrightarrow>
   \<exists>k. j \<le> k \<and> k < n \<and> a = dirent_addr cfg e k \<and>
       inode_no (dir_blocks sb (dirent_addr cfg e k)) = 0 \<and>
       (\<forall>k'. j \<le> k' \<and> k' < k \<longrightarrow> inode_no (dir_blocks sb (dirent_addr cfg e k')) \<noteq> 0)"
proof (induction cfg sb e j n rule: find_free_dirent.induct)
  case (1 cfg sb e j n)
  show ?case
  proof (cases "j < n \<and> inode_no (dir_blocks sb (dirent_addr cfg e j)) \<noteq> 0")
    case True
    with "1.prems" have "find_free_dirent cfg sb e (j + 1) n = Some a"
      by (subst (asm) find_free_dirent.simps) simp
    with "1.IH" True obtain k where k: "j + 1 \<le> k" "k < n" "a = dirent_addr cfg e k"
      "inode_no (dir_blocks sb (dirent_addr cfg e k)) = 0"
      "\<forall>k'. j + 1 \<le> k' \<and> k' < k \<longrightarrow> inode_no (dir_blocks sb (dirent_addr cfg e k')) \<noteq> 0"
      by auto
    have "\<forall>k'. j \<le> k' \<and> k' < k \<longrightarrow> inode_no (dir_blocks sb (dirent_addr cfg e k')) \<noteq> 0"
    proof (intro allI impI)
      fix k' assume "j \<le> k' \<and> k' < k"
      then have "k' = j \<or> (j + 1 \<le> k' \<and> k' < k)" by arith
      with True k(5) show "inode_no (dir_blocks sb (dirent_addr cfg e k')) \<noteq> 0" by blast
    qed
    with k(1-4) show ?thesis by (intro exI [of _ k]) simp
  next
    case False
    with "1.prems" have "j < n" "inode_no (dir_blocks sb (dirent_addr cfg e j)) = 0"
      "a = dirent_addr cfg e j"
      by (subst (asm) find_free_dirent.simps, simp split: if_splits)+
    then show ?thesis by (intro exI [of _ j]) simp
  qed
qed

lemma find_free_dirent_None:
  "find_free_dirent cfg sb e j n = None \<Longrightarrow> j \<le> k \<Longrightarrow> k < n \<Longrightarrow>
   inode_no (dir_blocks sb (dirent_addr cfg e k)) \<noteq> 0"
proof (induction cfg sb e j n rule: find_free_dirent.induct)
  case (1 cfg sb e j n)
  from "1.prems" have j: "j < n" by simp
  with "1.prems"(1) have nz: "inode_no (dir_blocks sb (dirent_addr cfg e j)) \<noteq> 0"
    by (subst (asm) find_free_dirent.simps) (simp split: if_splits)
  with j "1.prems"(1) have rec: "find_free_dirent cfg sb e (j + 1) n = None"
    by (subst (asm) find_free_dirent.simps) simp
  show ?case
  proof (cases "k = j")
    case True
    with nz show ?thesis by simp
  next
    case False
    with "1.prems"(2) have "j + 1 \<le> k" by simp
    from "1.IH" [OF j nz rec this "1.prems"(3)] show ?thesis .
  qed
qed

lemma add_dir_scan_Some:
  "add_dir_scan cfg sb inode i0 = Some a \<Longrightarrow>
   \<exists>i k. i0 \<le> i \<and> i < extent_count inode \<and> k < dirent_count cfg inode i \<and>
       a = dirent_addr cfg (extents inode i) k \<and> dirent_free cfg sb inode i k \<and>
       (\<forall>k'<k. \<not> dirent_free cfg sb inode i k') \<and>
       (\<forall>i'. i0 \<le> i' \<and> i' < i \<longrightarrow> (\<forall>k'<dirent_count cfg inode i'. \<not> dirent_free cfg sb inode i' k'))"
proof (induction cfg sb inode i0 rule: add_dir_scan.induct)
  case (1 cfg sb inode i0)
  from "1.prems" have lt: "i0 < extent_count inode"
    by (subst (asm) add_dir_scan.simps) (simp split: if_splits)
  show ?case
  proof (cases "find_free_dirent cfg sb (extents inode i0) 0 (dirent_count cfg inode i0)")
    case (Some b)
    with lt "1.prems" have "a = b"
      by (subst (asm) add_dir_scan.simps) (simp add: dirent_count_def)
    with find_free_dirent_Some [OF Some] obtain k where
      "k < dirent_count cfg inode i0" "a = dirent_addr cfg (extents inode i0) k"
      "dirent_free cfg sb inode i0 k" "\<forall>k'<k. \<not> dirent_free cfg sb inode i0 k'"
      by (auto simp: dirent_free_def)
    with lt show ?thesis
      by (rule_tac x = i0 in exI, rule_tac x = k in exI) auto
  next
    case None
    with lt "1.prems" have rec: "add_dir_scan cfg sb inode (i0 + 1) = Some a"
      by (subst (asm) add_dir_scan.simps) (simp add: dirent_count_def)
    from None have none: "\<forall>k'<dirent_count cfg inode i0. \<not> dirent_free cfg sb inode i0 k'"
      by (auto simp: dirent_free_def dest: find_free_dirent_None)
    from "1.IH" [OF lt None [unfolded dirent_count_def] rec]
    obtain i k where ik: "i0 + 1 \<le> i" "i < extent_count inode" "k < dirent_count cfg inode i"
      "a = dirent_addr cfg (extents inode i) k" "dirent_free cfg sb inode i k"
      "\<forall>k'<k. \<not> dirent_free cfg sb inode i k'"
      "\<forall>i'. i0 + 1 \<le> i' \<and> i' < i \<longrightarrow> (\<forall>k'<dirent_count cfg inode i'. \<not> dirent_free cfg sb inode i' k')"
      by blast
    have "\<forall>i'. i0 \<le> i' \<and> i' < i \<longrightarrow> (\<forall>k'<dirent_count cfg inode i'. \<not> dirent_free cfg sb inode i' k')"
    proof (rule allI, rule impI)
      fix i' assume "i0 \<le> i' \<and> i' < i"
      then have "i' = i0 \<or> (i0 + 1 \<le> i' \<and> i' < i)" by arith
      with none ik(7) show "\<forall>k'<dirent_count cfg inode i'. \<not> dirent_free cfg sb inode i' k'"
        by blast
    qed
    with ik(1-6) show ?thesis
      by (rule_tac x = i in exI, rule_tac x = k in exI) auto
  qed
qed

lemma add_dir_scan_None:
  "add_dir_scan cfg sb inode i0 = None \<Longrightarrow> i0 \<le> i \<Longrightarrow> i < extent_count inode \<Longrightarrow>
   k < dirent_count cfg inode i \<Longrightarrow> \<not> dirent_free cfg sb inode i k"
proof (induction cfg sb inode i0 rule: add_dir_scan.induct)
  case (1 cfg sb inode i0)
  from "1.prems" have lt: "i0 < extent_count inode" by simp
  with "1.prems"(1) have
    none: "find_free_dirent cfg sb (extents inode i0) 0 (dirent_count cfg inode i0) = None"
    by (subst (asm) add_dir_scan.simps) (simp add: dirent_count_def split: option.splits)
  with lt "1.prems"(1) have rec: "add_dir_scan cfg sb inode (i0 + 1) = None"
    by (subst (asm) add_dir_scan.simps) (simp add: dirent_count_def)
  show ?case
  proof (cases "i = i0")
    case True
    with none "1.prems"(4) show ?thesis
      by (auto simp: dirent_free_def dest: find_free_dirent_None)
  next
    case False
    with "1.prems"(2) have "i0 + 1 \<le> i" by simp
    from "1.IH" [OF lt none [unfolded dirent_count_def] rec this "1.prems"(3,4)] show ?thesis .
  qed
qed

lemma add_dir_scan_first:
  "add_dir_scan cfg sb inode 0 = Some a \<Longrightarrow> first_free_dirent cfg sb inode a"
  by (drule add_dir_scan_Some) (auto simp: first_free_dirent_def)

lemma add_dir_scan_has_free:
  "has_free_dirent cfg sb inode \<Longrightarrow> \<exists>a. add_dir_scan cfg sb inode 0 = Some a"
proof (cases "add_dir_scan cfg sb inode 0")
  case None
  assume "has_free_dirent cfg sb inode"
  with add_dir_scan_None [OF None] show ?thesis
    by (auto simp: has_free_dirent_def)
qed simp

lemma add_dir_entry_second:
  "osfs_add_dir_entry cfg4096 (volume_with_file 100) 1 3 ''b'' 1 =
     (Inr (), (volume_with_file 100)
        \<lparr>dir_blocks := (dir_blocks (volume_with_file 100))(8452 := \<lparr>filename = ''b'', inode_no = 3\<rparr>)\<rparr>)"
  by (simp add: dir_eval volume_with_file_def zero_inode_def u32_def)

lemma has_free_dirent_second:
  "has_free_dirent cfg4096 (volume_with_file 100) (inode_table (volume_with_file 100) 1)"
  unfolding has_free_dirent_def
  by (rule_tac x = 0 in exI, simp add: volume_with_file_def zero_inode_def,
      rule_tac x = 1 in exI,
      simp add: dirent_count_def dirent_free_def dirent_addr_def cfg4096_def u32_def)

text \<open>
  C8. For a name within \<^verbatim>\<open>MAX_FILENAME_LEN\<close>, \<^verbatim>\<open>osfs_add_dir_entry\<close> returns, with
  success or with \<^verbatim>\<open>-ENOSPC\<close>. Every retry round adds exactly one extent to the
  directory, so the number of rounds is the growth of its extent count; that growth
  equals the number of slots used up and is at most 4. When an existing extent has a
  free entry, the first free entry in extent order then slot order is filled and nothing
  else changes; on success exactly one entry, free before, has changed; on failure no
  entry has changed.
\<close>

theorem add_dir_entry_bounded:
  assumes "name_len \<le> MAX_FILENAME_LEN cfg"
  shows "\<exists>r sb'. osfs_add_dir_entry cfg sb dir ino name name_len = (r, sb') \<and>
     (r = Inr () \<or> r = Inl ENOSPC) \<and>
     extent_count (inode_table sb dir) \<le> extent_count (inode_table sb' dir) \<and>
     extent_count (inode_table sb' dir) - extent_count (inode_table sb dir)
       = free_slots (inode_table sb dir) - free_slots (inode_table sb' dir) \<and>
     extent_count (inode_table sb' dir) - extent_count (inode_table sb dir) \<le> 4 \<and>
     (has_free_dirent cfg sb (inode_table sb dir) \<longrightarrow>
        r = Inr () \<and>
        (\<exists>a. first_free_dirent cfg sb (inode_table sb dir) a \<and>
             sb' = sb\<lparr>dir_blocks := (dir_blocks sb)(a := new_dirent name name_len ino)\<rparr>)) \<and>
     (r = Inr () \<longrightarrow>
        (\<exists>a. inode_no (dir_blocks sb a) = 0 \<and>
             dir_blocks sb' = (dir_blocks sb)(a := new_dirent name name_len ino))) \<and>
     (r = Inl ENOSPC \<longrightarrow> dir_blocks sb' = dir_blocks sb)"
proof -
  obtain r sb' where res: "osfs_add_dir_entry cfg sb dir ino name name_len = (r, sb')"
    by (cases "osfs_add_dir_entry cfg sb dir ino name name_len") auto
  note p = add_dir_entry_props [OF assms res]
  have le4: "free_slots (inode_table sb dir) \<le> 4" by (rule free_slots_le)
  have first: "has_free_dirent cfg sb (inode_table sb dir) \<longrightarrow>
        r = Inr () \<and>
        (\<exists>a. first_free_dirent cfg sb (inode_table sb dir) a \<and>
             sb' = sb\<lparr>dir_blocks := (dir_blocks sb)(a := new_dirent name name_len ino)\<rparr>)"
  proof
    assume "has_free_dirent cfg sb (inode_table sb dir)"
    then obtain a where a: "add_dir_scan cfg sb (inode_table sb dir) 0 = Some a"
      by (auto dest: add_dir_scan_has_free)
    with assms res have "r = Inr ()"
      "sb' = sb\<lparr>dir_blocks := (dir_blocks sb)(a := new_dirent name name_len ino)\<rparr>"
      by (subst (asm) osfs_add_dir_entry.simps, simp add: new_dirent_def)+
    with add_dir_scan_first [OF a] show "r = Inr () \<and>
        (\<exists>a. first_free_dirent cfg sb (inode_table sb dir) a \<and>
             sb' = sb\<lparr>dir_blocks := (dir_blocks sb)(a := new_dirent name name_len ino)\<rparr>)"
      by blast
  qed
  from p le4 have
    "extent_count (inode_table sb dir) \<le> extent_count (inode_table sb' dir)"
    "extent_count (inode_table sb' dir) - extent_count (inode_table sb dir)
       = free_slots (inode_table sb dir) - free_slots (inode_table sb' dir)"
    "extent_count (inode_table sb' dir) - extent_count (inode_table sb dir) \<le> 4"
    by arith+
  with res p first show ?thesis by blast
qed

theorem add_dir_entry_bounded_witness:
  "1 \<le> MAX_FILENAME_LEN cfg4096 \<and>
   fst (osfs_add_dir_entry cfg4096 garbage_dir_volume 1 2 ''a'' 1) = Inl ENOSPC \<and>
   extent_count (inode_table garbage_dir_volume 1) = 0 \<and>
   extent_count (inode_table (snd (osfs_add_dir_entry cfg4096 garbage_dir_volume 1 2 ''a'' 1)) 1) = 4 \<and>
   dir_blocks (snd (osfs_add_dir_entry cfg4096 garbage_dir_volume 1 2 ''a'' 1))
     = dir_blocks garbage_dir_volume \<and>
   has_free_dirent cfg4096 (volume_with_file 100) (inode_table (volume_with_file 100) 1) \<and>
   fst (osfs_add_dir_entry cfg4096 (volume_with_file 100) 1 3 ''b'' 1) = Inr () \<and>
   (\<exists>a. first_free_dirent cfg4096 (volume_with_file 100) (inode_table (volume_with_file 100) 1) a \<and>
        snd (osfs_add_dir_entry cfg4096 (volume_with_file 100) 1 3 ''b'' 1) =
          (volume_with_file 100)
            \<lparr>dir_blocks := (dir_blocks (volume_with_file 100))(a := new_dirent ''b'' 1 3)\<rparr>) \<and>
   dir_blocks (snd (osfs_add_dir_entry cfg4096 (volume_with_file 100) 1 3 ''b'' 1)) 8452
     = new_dirent ''b'' 1 3"
proof -
  have l: "1 \<le> MAX_FILENAME_LEN cfg4096" by (simp add: cfg4096_def)
  have g1: "fst (osfs_add_dir_entry cfg4096 garbage_dir_volume 1 2 ''a'' 1) = Inl ENOSPC"
    unfolding add_dir_entry_garbage by simp
  have g2: "extent_count (inode_table garbage_dir_volume 1) = 0"
    by (simp add: garbage_dir_volume_def fresh_volume_def zero_inode_def)
  have g3: "extent_count (inode_table (snd (osfs_add_dir_entry cfg4096 garbage_dir_volume 1 2 ''a'' 1)) 1) = 4"
    unfolding add_dir_entry_garbage by simp
  from add_dir_entry_bounded [OF l, of garbage_dir_volume 1 2 "''a''"]
  obtain r sb' where c: "osfs_add_dir_entry cfg4096 garbage_dir_volume 1 2 ''a'' 1 = (r, sb')"
    and f: "r = Inl ENOSPC \<longrightarrow> dir_blocks sb' = dir_blocks garbage_dir_volume"
    by blast
  from c g1 f have g4: "dir_blocks (snd (osfs_add_dir_entry cfg4096 garbage_dir_volume 1 2 ''a'' 1))
     = dir_blocks garbage_dir_volume" by simp
  note h = has_free_dirent_second
  from add_dir_entry_bounded [OF l, of "volume_with_file 100" 1 3 "''b''"]
  obtain r2 sb2 where c2: "osfs_add_dir_entry cfg4096 (volume_with_file 100) 1 3 ''b'' 1 = (r2, sb2)"
    and f2: "has_free_dirent cfg4096 (volume_with_file 100) (inode_table (volume_with_file 100) 1) \<longrightarrow>
        r2 = Inr () \<and>
        (\<exists>a. first_free_dirent cfg4096 (volume_with_file 100) (inode_table (volume_with_file 100) 1) a \<and>
             sb2 = (volume_with_file 100)
               \<lparr>dir_blocks := (dir_blocks (volume_with_file 100))(a := new_dirent ''b'' 1 3)\<rparr>)"
    by blast
  from f2 h have s1: "r2 = Inr ()"
    and s2: "\<exists>a. first_free_dirent cfg4096 (volume_with_file 100) (inode_table (volume_with_file 100) 1) a \<and>
             sb2 = (volume_with_file 100)
               \<lparr>dir_blocks := (dir_blocks (volume_with_file 100))(a := new_dirent ''b'' 1 3)\<rparr>"
    by blast+
  have s3: "dir_blocks (snd (osfs_add_dir_entry cfg4096 (volume_with_file 100) 1 3 ''b'' 1)) 8452
     = new_dirent ''b'' 1 3"
    unfolding add_dir_entry_second by (simp add: new_dirent_def)
  from c2 s1 have t1: "fst (osfs_add_dir_entry cfg4096 (volume_with_file 100) 1 3 ''b'' 1) = Inr ()"
    by simp
  from c2 s2 have t2: "\<exists>a. first_free_dirent cfg4096 (volume_with_file 100) (inode_table (volume_with_file 100) 1) a \<and>
        snd (osfs_add_dir_entry cfg4096 (volume_with_file 100) 1 3 ''b'' 1) =
          (volume_with_file 100)
            \<lparr>dir_blocks := (dir_blocks (volume_with_file 100))(a := new_dirent ''b'' 1 3)\<rparr>"
    by simp
  from l g1 g2 g3 g4 h t1 t2 s3 show ?thesis by blast
qed

text \<open>
  C6. A successful creation is meant to leave the new inode with one extent of one
  block. Creating \<open>a\<close> on a fresh volume succeeds with the extent count 1, but two slots
  of the new inode are in use, for the blocks 0 and 1: \<^verbatim>\<open>osfs_new_inode\<close> allocates an
  extent and \<^verbatim>\<open>osfs_create\<close> allocates another one. Block 2 is the directory's.
\<close>

theorem create_allocates_two_extents:
  "fst (osfs_create cfg4096 (fresh_volume 50 100) True 1 ''a'' 1 S_IFREG_0644) = Inr () \<and>
   extent_count (inode_table
      (snd (osfs_create cfg4096 (fresh_volume 50 100) True 1 ''a'' 1 S_IFREG_0644)) 2) = 1 \<and>
   extents (inode_table
      (snd (osfs_create cfg4096 (fresh_volume 50 100) True 1 ''a'' 1 S_IFREG_0644)) 2) 0
     = \<lparr>start_block = 0, ext_block_count = 1\<rparr> \<and>
   extents (inode_table
      (snd (osfs_create cfg4096 (fresh_volume 50 100) True 1 ''a'' 1 S_IFREG_0644)) 2) 1
     = \<lparr>start_block = 1, ext_block_count = 1\<rparr> \<and>
   free_slots (inode_table
      (snd (osfs_create cfg4096 (fresh_volume 50 100) True 1 ''a'' 1 S_IFREG_0644)) 2) = 2 \<and>
   extents (inode_table
      (snd (osfs_create cfg4096 (fresh_volume 50 100) True 1 ''a'' 1 S_IFREG_0644)) 1) 0
     = \<lparr>start_block = 2, ext_block_count = 1\<rparr> \<and>
   block_bitmap (fresh_volume 50 100) = {} \<and>
   block_bitmap (snd (osfs_create cfg4096 (fresh_volume 50 100) True 1 ''a'' 1 S_IFREG_0644))
     = {0, 1, 2}"
  unfolding create_fresh_100 snd_conv fst_conv
  by (simp add: volume_with_file_def zero_inode_def free_slots_def fresh_volume_def)

lemmas iterate_eval =
  osfs_iterate_def iterate_extents.simps iterate_entries.simps dir_emit_dots_def dir_emit_def
  dirent_addr_def cfg4096_def u32_def dir_entries_volume_def fresh_volume_def zero_inode_def

lemma iterate_hole_full:
  "osfs_iterate cfg4096 dir_with_hole 1 1 \<lparr>ctx_pos = 0, emitted = [], room = 10\<rparr> =
     (Inr (), \<lparr>ctx_pos = 4, emitted = [(''.'', 1), (''..'', 1), (''a'', 2), (''b'', 3)], room = 6\<rparr>)"
  by (simp add: iterate_eval dir_with_hole_def)

lemma iterate_hole_resume:
  "osfs_iterate cfg4096 dir_with_hole 1 1 \<lparr>ctx_pos = 4, emitted = [], room = 10\<rparr> =
     (Inr (), \<lparr>ctx_pos = 5, emitted = [(''b'', 3)], room = 9\<rparr>)"
  by (simp add: iterate_eval dir_with_hole_def)

lemma iterate_two_extents:
  "osfs_iterate cfg4096 dir_two_extents 1 1 \<lparr>ctx_pos = 0, emitted = [], room = 10\<rparr> =
     (Inr (), \<lparr>ctx_pos = 3, emitted = [(''.'', 1), (''..'', 1), (''a'', 2)], room = 7\<rparr>)"
  by (simp add: iterate_eval dir_two_extents_def)

text \<open>
  C9. An iteration that resumes at a saved position is meant to continue the
  traversal of an uninterrupted one. In a directory whose only extent holds \<open>a\<close>, a free
  slot and \<open>b\<close>, the iteration from position 0 emits the two dot entries, \<open>a\<close> and \<open>b\<close>
  and ends at position 4; an iteration from position 4 emits \<open>b\<close> once more. In a
  directory of two extents with \<open>a\<close> in the first and \<open>b\<close> in the first slot of the
  second, the iteration from position 0 never emits \<open>b\<close>. The position counts the
  entries emitted, and the code uses it as the slot to start from in every extent.
\<close>

theorem iterate_resume_diverges:
  "osfs_iterate cfg4096 dir_with_hole 1 1 \<lparr>ctx_pos = 0, emitted = [], room = 10\<rparr> =
     (Inr (), \<lparr>ctx_pos = 4, emitted = [(''.'', 1), (''..'', 1), (''a'', 2), (''b'', 3)], room = 6\<rparr>) \<and>
   osfs_iterate cfg4096 dir_with_hole 1 1 \<lparr>ctx_pos = 4, emitted = [], room = 10\<rparr> =
     (Inr (), \<lparr>ctx_pos = 5, emitted = [(''b'', 3)], room = 9\<rparr>) \<and>
   dir_blocks dir_two_extents (dirent_addr cfg4096 (extents (inode_table dir_two_extents 1) 1) 0)
     = \<lparr>filename = ''b'', inode_no = 3\<rparr> \<and>
   osfs_iterate cfg4096 dir_two_extents 1 1 \<lparr>ctx_pos = 0, emitted = [], room = 10\<rparr> =
     (Inr (), \<lparr>ctx_pos = 3, emitted = [(''.'', 1), (''..'', 1), (''a'', 2)], room = 7\<rparr>)"
  unfolding iterate_hole_full iterate_hole_resume iterate_two_extents
  by (simp add: dir_two_extents_def dir_entries_volume_def dirent_addr_def cfg4096_def u32_def
      zero_inode_def fresh_volume_def)

section \<open>File reads and writes\<close>


lemma buf5000_simps:
  "length buf5000 = 5000" "buf5000 ! 0 = CHR ''a''" "buf5000 ! 4096 = CHR ''b''"
  by (simp_all add: buf5000_def nth_append)

lemmas file_eval =
  osfs_write_def write_loop.simps write_extents.simps osfs_read_def read_extents.simps
  extent_start_def extent_end_def cfg4096_def alloc_extent_at_def
  osfs_alloc_extent_def alloc_scan.simps find_free_extent.simps set_bits.simps
  zero_inode_def u32_sub_def u32_def

lemma write_5000:
  "osfs_write cfg4096 (volume_with_file 100) 2 buf5000 5000 0 = (Inr 5000, written_volume, 5000)"
  apply (simp add: file_eval volume_with_file_def buf5000_simps written_volume_def)
  apply (auto simp: fun_eq_iff)
  done

lemma read_5000:
  "osfs_read cfg4096 written_volume 2 5000 5000 0 =
     (Inr 5000,
      map (data_blocks written_volume) [0..<4096] @ map (data_blocks written_volume) [4096..<5000],
      5000)"
  by (simp add: file_eval volume_with_file_def written_volume_def del: upt_rec_numeral)

lemma read_5000_first_byte:
  "(map (data_blocks written_volume) [0..<4096] @ map (data_blocks written_volume) [4096..<5000]) ! 0
     = CHR ''b''"
  by (simp add: nth_append copy_in_def buf5000_simps written_volume_def del: upt_rec_numeral)
















lemma second_file_roundtrip:
  "fst (osfs_create cfg4096 (volume_with_file 100) True 1 ''b'' 1 S_IFREG_0644) = Inr () \<and>
   extents (inode_table
      (snd (osfs_create cfg4096 (volume_with_file 100) True 1 ''b'' 1 S_IFREG_0644)) 3) 0
     = \<lparr>start_block = 3, ext_block_count = 1\<rparr> \<and>
   fst (osfs_write cfg4096
      (snd (osfs_create cfg4096 (volume_with_file 100) True 1 ''b'' 1 S_IFREG_0644)) 3 ''x'' 1 0)
     = Inl ENOSPC \<and>
   osfs_read cfg4096
      (fst (snd (osfs_write cfg4096
         (snd (osfs_create cfg4096 (volume_with_file 100) True 1 ''b'' 1 S_IFREG_0644)) 3 ''x'' 1 0)))
      3 1 1 0
     = (Inr 0, [], 0)"
  by (simp add: dir_eval new_inode_eval alloc_eval volume_with_file_def file_eval
      numeral_2_eq_2 [symmetric] numeral_3_eq_3 [symmetric])

text \<open>
  C2. Reading back what was written is meant to return the same bytes. After creating
  \<open>a\<close> on a fresh volume, writing 5000 bytes at offset 0 returns 5000 and reading 5000
  bytes at offset 0 returns 5000, but the bytes differ from those written: the second
  chunk of the write went to the start of the data region, where the first chunk was,
  because the write subtracts the extent's start from the position and the read does
  not. A second file \<open>b\<close>, whose first extent is block 3, cannot be written at offset 0
  at all: a write of one byte finds no extent whose byte range holds offset 0, uses up
  the remaining slots and returns \<^verbatim>\<open>-ENOSPC\<close>, and the read returns no byte.
\<close>

theorem write_read_roundtrip_broken:
  "fst (osfs_create cfg4096 (fresh_volume 50 100) True 1 ''a'' 1 S_IFREG_0644) = Inr () \<and>
   fst (osfs_write cfg4096
          (snd (osfs_create cfg4096 (fresh_volume 50 100) True 1 ''a'' 1 S_IFREG_0644))
          2 buf5000 5000 0) = Inr 5000 \<and>
   fst (osfs_read cfg4096
          (fst (snd (osfs_write cfg4096
             (snd (osfs_create cfg4096 (fresh_volume 50 100) True 1 ''a'' 1 S_IFREG_0644))
             2 buf5000 5000 0)))
          2 5000 5000 0) = Inr 5000 \<and>
   fst (snd (osfs_read cfg4096
          (fst (snd (osfs_write cfg4096
             (snd (osfs_create cfg4096 (fresh_volume 50 100) True 1 ''a'' 1 S_IFREG_0644))
             2 buf5000 5000 0)))
          2 5000 5000 0)) \<noteq> buf5000 \<and>
   fst (osfs_create cfg4096 (volume_with_file 100) True 1 ''b'' 1 S_IFREG_0644) = Inr () \<and>
   extents (inode_table
      (snd (osfs_create cfg4096 (volume_with_file 100) True 1 ''b'' 1 S_IFREG_0644)) 3) 0
     = \<lparr>start_block = 3, ext_block_count = 1\<rparr> \<and>
   fst (osfs_write cfg4096
      (snd (osfs_create cfg4096 (volume_with_file 100) True 1 ''b'' 1 S_IFREG_0644)) 3 ''x'' 1 0)
     = Inl ENOSPC \<and>
   osfs_read cfg4096
      (fst (snd (osfs_write cfg4096
         (snd (osfs_create cfg4096 (volume_with_file 100) True 1 ''b'' 1 S_IFREG_0644)) 3 ''x'' 1 0)))
      3 1 1 0
     = (Inr 0, [], 0)"
proof -
  let ?out = "map (data_blocks written_volume) [0..<4096] @ map (data_blocks written_volume) [4096..<5000]"
  have ne: "?out \<noteq> buf5000"
  proof
    assume "?out = buf5000"
    then have "?out ! 0 = buf5000 ! 0" by (rule arg_cong)
    then have "CHR ''b'' = CHR ''a''" unfolding read_5000_first_byte buf5000_simps(2) .
    then show False by simp
  qed
  have first: "fst (osfs_create cfg4096 (fresh_volume 50 100) True 1 ''a'' 1 S_IFREG_0644) = Inr () \<and>
   fst (osfs_write cfg4096
          (snd (osfs_create cfg4096 (fresh_volume 50 100) True 1 ''a'' 1 S_IFREG_0644))
          2 buf5000 5000 0) = Inr 5000 \<and>
   fst (osfs_read cfg4096
          (fst (snd (osfs_write cfg4096
             (snd (osfs_create cfg4096 (fresh_volume 50 100) True 1 ''a'' 1 S_IFREG_0644))
             2 buf5000 5000 0)))
          2 5000 5000 0) = Inr 5000 \<and>
   fst (snd (osfs_read cfg4096
          (fst (snd (osfs_write cfg4096
             (snd (osfs_create cfg4096 (fresh_volume 50 100) True 1 ''a'' 1 S_IFREG_0644))
             2 buf5000 5000 0)))
          2 5000 5000 0)) \<noteq> buf5000"
    unfolding create_fresh_100 snd_conv fst_conv write_5000 read_5000
    using ne by (simp del: upt_rec_numeral)
  from first second_file_roundtrip show ?thesis by blast
qed

end
